theory Spec2Isabelle
  imports Main "HOL-Library.Word"
begin

section \<open>VoteOblivion: the poll registry contract\<close>

text \<open>
  A shallow embedding of \<^verbatim>\<open>contracts/VoteOblivion.sol\<close>. Contract storage is a record
  that every state-changing function takes and returns; a \<^verbatim>\<open>revert\<close> is the left
  injection of a sum, paired with the state the call leaves behind. Solidity's unsigned
  integers are machine words of their width, mappings are total functions whose value at
  a key never written is the zero value of the value type.
\<close>

subsection \<open>Solidity value types\<close>

type_synonym uint256 = "256 word"
type_synonym uint64 = "64 word"
type_synonym uint32 = "32 word"
type_synonym address = "160 word"
type_synonym bytes32 = "256 word"
type_synonym bytes = "8 word list"

subsection \<open>The encrypted arithmetic capability\<close>

text \<open>
  The contract imports \<^verbatim>\<open>FHE\<close>, \<^verbatim>\<open>ebool\<close>, \<^verbatim>\<open>euint32\<close> and \<^verbatim>\<open>externalEuint32\<close> from the
  fhEVM library, which is not part of the repository. The contract never looks inside a
  ciphertext handle: it only builds new handles from old ones. A handle is therefore the
  term of the operations that produced it, and what it decrypts to is a function
  \<open>decrypt\<close> that only the statements of theorems use; no contract function calls it.
\<close>

type_synonym externalEuint32 = bytes32

datatype euint32 =
    Uninitialized
  | Ciphertext bytes32 uint32
  | TrivialEncrypt uint32
  | Add euint32 euint32
  | Select ebool euint32 euint32
and ebool =
    Eq euint32 euint32

text \<open>
  \<open>Uninitialized\<close> is the zero handle, the value of a slot never written.
  \<open>Ciphertext h c\<close> is a ciphertext made off-chain with handle \<open>h\<close>, encrypting \<open>c\<close>.
\<close>

fun decrypt :: "euint32 \<Rightarrow> uint32"
  and decrypt_bool :: "ebool \<Rightarrow> bool" where
  "decrypt Uninitialized = 0"
| "decrypt (Ciphertext h c) = c"
| "decrypt (TrivialEncrypt v) = v"
| "decrypt (Add a b) = decrypt a + decrypt b"
| "decrypt (Select c a b) = (if decrypt_bool c then decrypt a else decrypt b)"
| "decrypt_bool (Eq a b) = (decrypt a = decrypt b)"

text \<open>
  Modelled from the spec: the operations of the external Encrypted Arithmetic Capability
  (\<^verbatim>\<open>encryptOfConstant\<close>, \<^verbatim>\<open>add\<close>, \<^verbatim>\<open>equals\<close>, \<^verbatim>\<open>select\<close>), which the contract calls as
  \<^verbatim>\<open>FHE.asEuint32\<close>, \<^verbatim>\<open>FHE.add\<close>, \<^verbatim>\<open>FHE.eq\<close> and \<^verbatim>\<open>FHE.select\<close>. Each returns a new handle;
  addition of 32-bit values wraps around.
\<close>

definition FHE_asEuint32 :: "uint32 \<Rightarrow> euint32" where
  "FHE_asEuint32 v = TrivialEncrypt v"

definition FHE_add :: "euint32 \<Rightarrow> euint32 \<Rightarrow> euint32" where
  "FHE_add a b = Add a b"

definition FHE_eq :: "euint32 \<Rightarrow> euint32 \<Rightarrow> ebool" where
  "FHE_eq a b = Eq a b"

definition FHE_select :: "ebool \<Rightarrow> euint32 \<Rightarrow> euint32 \<Rightarrow> euint32" where
  "FHE_select c a b = Select c a b"

text \<open>
  Modelled from the spec: \<^verbatim>\<open>markPubliclyDecryptable\<close> and the access-control list behind
  \<^verbatim>\<open>FHE.allowThis\<close> and \<^verbatim>\<open>FHE.makePubliclyDecryptable\<close>. The list is two sets of handles:
  those this contract may compute on, and those anyone may have decrypted.
\<close>

definition FHE_allowThis :: "euint32 \<Rightarrow> euint32 set \<Rightarrow> euint32 set" where
  "FHE_allowThis h acl = insert h acl"

definition FHE_makePubliclyDecryptable :: "euint32 \<Rightarrow> euint32 set \<Rightarrow> euint32 set" where
  "FHE_makePubliclyDecryptable h acl = insert h acl"

text \<open>\<^verbatim>\<open>euint32.unwrap\<close>: the handle behind an encrypted integer.\<close>

definition euint32_unwrap :: "euint32 \<Rightarrow> euint32" where
  "euint32_unwrap h = h"

text \<open>
  \<^verbatim>\<open>abi.encodePacked\<close> of a \<^verbatim>\<open>uint64[]\<close>: every element padded to 32 bytes, big-endian,
  one after the other.
\<close>

definition abi_encodePacked :: "uint64 list \<Rightarrow> bytes" where
  "abi_encodePacked xs =
     concat (map (\<lambda>x. map (\<lambda>k. ucast (drop_bit (8 * (31 - k)) (ucast x :: uint256))) [0..<32]) xs)"

subsection \<open>Contract data\<close>

record Poll =
  name :: string
  options :: "string list"
  startTime :: uint64
  endTime :: uint64
  finalized :: bool
  resultsPublished :: bool
  clearResults :: "uint64 list"
  tallies :: "euint32 list"

datatype error =
    PollNotFound uint256
  | EmptyName
  | InvalidSchedule
  | InvalidOptionCount
  | PollAlreadyFinalized uint256
  | PollNotFinalized uint256
  | PollStillActive uint256
  | PollAlreadyPublished uint256
  | AddressAlreadyVoted uint256 address
  | PollNotActive uint256
  | Panic uint256
  | InputProofRejected
  | SignaturesRejected

text \<open>
  The last three are not custom errors of the contract: \<open>Panic 0x11\<close> is the checked
  arithmetic of Solidity 0.8 overflowing, \<open>InputProofRejected\<close> is \<^verbatim>\<open>FHE.fromExternal\<close>
  reverting and \<open>SignaturesRejected\<close> is \<^verbatim>\<open>FHE.checkSignatures\<close> reverting.
\<close>

datatype event =
    PollCreated uint256 string "string list" uint64 uint64
  | VoteCast uint256 address
  | PollFinalized uint256
  | ResultsPublished uint256 "uint64 list"

text \<open>
  The storage variables \<^verbatim>\<open>_pollCount\<close>, \<^verbatim>\<open>_polls\<close> and \<^verbatim>\<open>_hasVoted\<close> (an Isabelle name
  cannot start with an underscore), then what the contract writes outside its own
  storage: the two sets of the access-control list and the event log.
\<close>

record state =
  pollCount :: uint256
  polls :: "uint256 \<Rightarrow> Poll"
  hasVoted :: "uint256 \<Rightarrow> address \<Rightarrow> bool"
  aclAllowed :: "euint32 set"
  aclPublic :: "euint32 set"
  emitted :: "event list"

text \<open>
  What a call sees of its transaction and chain, and the two steps of the capability
  whose answer the contract cannot compute: \<^verbatim>\<open>FHE.fromExternal\<close> (given the caller, the
  external handle and the input proof, a handle or a revert) and \<^verbatim>\<open>FHE.checkSignatures\<close>
  (given the handles, the cleartext payload and the decryption proof, accept or revert).
\<close>

record env =
  block_timestamp :: uint256
  block_chainid :: uint256
  msg_sender :: address
  FHE_fromExternal :: "address \<Rightarrow> externalEuint32 \<Rightarrow> bytes \<Rightarrow> euint32 option"
  FHE_checkSignatures :: "euint32 list \<Rightarrow> bytes \<Rightarrow> bytes \<Rightarrow> bool"

text \<open>The zero value of \<^verbatim>\<open>Poll\<close> and the storage of a freshly deployed contract.\<close>

definition zeroPoll :: Poll where
  "zeroPoll = \<lparr>name = [], options = [], startTime = 0, endTime = 0, finalized = False,
     resultsPublished = False, clearResults = [], tallies = []\<rparr>"

definition deployed :: state where
  "deployed = \<lparr>pollCount = 0, polls = (\<lambda>_. zeroPoll), hasVoted = (\<lambda>_ _. False),
     aclAllowed = {}, aclPublic = {}, emitted = []\<rparr>"

subsection \<open>Reading functions\<close>

definition totalPolls :: "state \<Rightarrow> uint256" where
  "totalPolls s = pollCount s"

text \<open>\<^verbatim>\<open>_getPoll\<close>\<close>

definition getPoll :: "state \<Rightarrow> uint256 \<Rightarrow> error + Poll" where
  "getPoll s pollId =
     (if pollId \<ge> pollCount s then Inl (PollNotFound pollId) else Inr (polls s pollId))"

subsection \<open>createPoll\<close>

text \<open>
  The loop of \<^verbatim>\<open>createPoll\<close>: push the option, push an encrypted zero, allow the
  contract on \<^verbatim>\<open>poll.tallies[i]\<close>. The index is in range: the array has grown by one in
  each of the \<open>i + 1\<close> rounds so far.
\<close>

function createPoll_loop ::
  "nat \<Rightarrow> string list \<Rightarrow> Poll \<Rightarrow> euint32 set \<Rightarrow> Poll \<times> euint32 set" where
  "createPoll_loop i options' poll acl =
     (if i < length options' then
        let poll1 = poll\<lparr>options := options poll @ [options' ! i]\<rparr>;
            poll2 = poll1\<lparr>tallies := tallies poll1 @ [FHE_asEuint32 0]\<rparr>;
            acl' = FHE_allowThis (tallies poll2 ! i) acl
        in createPoll_loop (i + 1) options' poll2 acl'
      else (poll, acl))"
  by pat_completeness auto
termination
  by (relation "measure (\<lambda>(i, options', poll, acl). length options' - i)") auto

declare createPoll_loop.simps [simp del]

definition createPoll ::
  "env \<Rightarrow> string \<Rightarrow> string list \<Rightarrow> uint64 \<Rightarrow> uint64 \<Rightarrow> state \<Rightarrow> (error + uint256) \<times> state" where
  "createPoll e name' options' startTime' endTime' s =
     (if length name' = 0 then (Inl EmptyName, s)
      else if length options' < 2 \<or> length options' > 4 then (Inl InvalidOptionCount, s)
      else if endTime' \<le> startTime' \<or> ucast endTime' \<le> block_timestamp e
        then (Inl InvalidSchedule, s)
      else if pollCount s = - 1 then (Inl (Panic 0x11), s)
      else
        let pollId = pollCount s;
            s1 = s\<lparr>pollCount := pollCount s + 1\<rparr>;
            poll = (polls s1 pollId)\<lparr>name := name', startTime := startTime', endTime := endTime'\<rparr>;
            (poll', acl') = createPoll_loop 0 options' poll (aclAllowed s1);
            s2 = s1\<lparr>polls := (polls s1)(pollId := poll'), aclAllowed := acl'\<rparr>;
            s3 = s2\<lparr>emitted := emitted s2 @ [PollCreated pollId name' options' startTime' endTime']\<rparr>
        in (Inr pollId, s3))"

subsection \<open>vote\<close>

text \<open>
  The loop of \<^verbatim>\<open>vote\<close>. \<^verbatim>\<open>uint32(i)\<close> truncates the counter to 32 bits, as \<open>of_nat\<close> does.
\<close>

function vote_loop ::
  "euint32 \<Rightarrow> euint32 \<Rightarrow> euint32 \<Rightarrow> nat \<Rightarrow> euint32 list \<Rightarrow> euint32 set \<Rightarrow> euint32 list \<times> euint32 set" where
  "vote_loop choice one zero i ts acl =
     (if i < length ts then
        let optionIndex = FHE_asEuint32 (of_nat i);
            matches = FHE_eq choice optionIndex;
            increment = FHE_select matches one zero;
            ts' = ts[i := FHE_add (ts ! i) increment];
            acl' = FHE_allowThis (ts' ! i) acl
        in vote_loop choice one zero (i + 1) ts' acl'
      else (ts, acl))"
  by pat_completeness auto
termination
  by (relation "measure (\<lambda>(choice, one, zero, i, ts, acl). length ts - i)") auto

declare vote_loop.simps [simp del]

definition vote ::
  "env \<Rightarrow> uint256 \<Rightarrow> externalEuint32 \<Rightarrow> bytes \<Rightarrow> state \<Rightarrow> (error + unit) \<times> state" where
  "vote e pollId encryptedChoice inputProof s =
     (case getPoll s pollId of
        Inl err \<Rightarrow> (Inl err, s)
      | Inr poll \<Rightarrow>
          if block_timestamp e < ucast (startTime poll) \<or> block_timestamp e \<ge> ucast (endTime poll)
            then (Inl (PollNotActive pollId), s)
          else if hasVoted s pollId (msg_sender e)
            then (Inl (AddressAlreadyVoted pollId (msg_sender e)), s)
          else
            (case FHE_fromExternal e (msg_sender e) encryptedChoice inputProof of
               None \<Rightarrow> (Inl InputProofRejected, s)
             | Some choice \<Rightarrow>
                 let one = FHE_asEuint32 1;
                     zero = FHE_asEuint32 0;
                     (ts, acl) = vote_loop choice one zero 0 (tallies poll) (aclAllowed s);
                     s1 = s\<lparr>polls := (polls s)(pollId := poll\<lparr>tallies := ts\<rparr>), aclAllowed := acl\<rparr>;
                     s2 = s1\<lparr>hasVoted := (hasVoted s1)(pollId := (hasVoted s1 pollId)(msg_sender e := True))\<rparr>;
                     s3 = s2\<lparr>emitted := emitted s2 @ [VoteCast pollId (msg_sender e)]\<rparr>
                 in (Inr (), s3)))"

subsection \<open>finalizePoll\<close>

function finalizePoll_loop :: "nat \<Rightarrow> euint32 list \<Rightarrow> euint32 set \<Rightarrow> euint32 set" where
  "finalizePoll_loop i ts acl =
     (if i < length ts then finalizePoll_loop (i + 1) ts (FHE_makePubliclyDecryptable (ts ! i) acl)
      else acl)"
  by pat_completeness auto
termination
  by (relation "measure (\<lambda>(i, ts, acl). length ts - i)") auto

declare finalizePoll_loop.simps [simp del]

definition finalizePoll :: "env \<Rightarrow> uint256 \<Rightarrow> state \<Rightarrow> (error + unit) \<times> state" where
  "finalizePoll e pollId s =
     (case getPoll s pollId of
        Inl err \<Rightarrow> (Inl err, s)
      | Inr poll \<Rightarrow>
          if block_timestamp e < ucast (endTime poll) then (Inl (PollStillActive pollId), s)
          else if finalized poll then (Inl (PollAlreadyFinalized pollId), s)
          else
            let acl = finalizePoll_loop 0 (tallies poll) (aclPublic s);
                s1 = s\<lparr>aclPublic := acl\<rparr>;
                s2 = s1\<lparr>polls := (polls s1)(pollId := poll\<lparr>finalized := True\<rparr>)\<rparr>;
                s3 = s2\<lparr>emitted := emitted s2 @ [PollFinalized pollId]\<rparr>
            in (Inr (), s3))"

subsection \<open>publishResults\<close>

text \<open>The loop that fills the memory array \<^verbatim>\<open>handles\<close>.\<close>

function handles_loop :: "nat \<Rightarrow> euint32 list \<Rightarrow> euint32 list \<Rightarrow> euint32 list" where
  "handles_loop i ts handles =
     (if i < length ts then handles_loop (i + 1) ts (handles[i := euint32_unwrap (ts ! i)])
      else handles)"
  by pat_completeness auto
termination
  by (relation "measure (\<lambda>(i, ts, handles). length ts - i)") auto

declare handles_loop.simps [simp del]

text \<open>The loop that pushes the submitted results onto \<^verbatim>\<open>poll.clearResults\<close>.\<close>

function publishResults_loop :: "nat \<Rightarrow> uint64 list \<Rightarrow> uint64 list \<Rightarrow> uint64 list" where
  "publishResults_loop i clearResults' stored =
     (if i < length clearResults' then
        publishResults_loop (i + 1) clearResults' (stored @ [clearResults' ! i])
      else stored)"
  by pat_completeness auto
termination
  by (relation "measure (\<lambda>(i, clearResults', stored). length clearResults' - i)") auto

declare publishResults_loop.simps [simp del]

definition shouldVerify :: "env \<Rightarrow> bytes \<Rightarrow> bool" where
  "shouldVerify e decryptionProof =
     (\<not> (block_chainid e = 31337 \<and> length decryptionProof = 0))"

definition publishResults ::
  "env \<Rightarrow> uint256 \<Rightarrow> uint64 list \<Rightarrow> bytes \<Rightarrow> state \<Rightarrow> (error + unit) \<times> state" where
  "publishResults e pollId clearResults' decryptionProof s =
     (case getPoll s pollId of
        Inl err \<Rightarrow> (Inl err, s)
      | Inr poll \<Rightarrow>
          if \<not> finalized poll then (Inl (PollNotFinalized pollId), s)
          else if resultsPublished poll then (Inl (PollAlreadyPublished pollId), s)
          else if length clearResults' \<noteq> length (tallies poll) then (Inl InvalidOptionCount, s)
          else
            let handles = handles_loop 0 (tallies poll)
                            (replicate (length (tallies poll)) Uninitialized);
                cleartextPayload = abi_encodePacked clearResults'
            in if shouldVerify e decryptionProof
                  \<and> \<not> FHE_checkSignatures e handles cleartextPayload decryptionProof
               then (Inl SignaturesRejected, s)
               else
                 let poll1 = poll\<lparr>clearResults := []\<rparr>;
                     poll2 = poll1\<lparr>clearResults :=
                               publishResults_loop 0 clearResults' (clearResults poll1)\<rparr>;
                     poll3 = poll2\<lparr>resultsPublished := True\<rparr>;
                     s1 = s\<lparr>polls := (polls s)(pollId := poll3)\<rparr>;
                     s2 = s1\<lparr>emitted := emitted s1 @ [ResultsPublished pollId clearResults']\<rparr>
                 in (Inr (), s2))"

subsection \<open>The remaining reading functions\<close>

text \<open>\<^verbatim>\<open>_copyOptions\<close>, \<^verbatim>\<open>_copyUint64Array\<close> and the loop of \<^verbatim>\<open>getEncryptedTallies\<close>
  all fill a fresh memory array of the stored length, element by element.\<close>

function copy_loop :: "nat \<Rightarrow> 'a list \<Rightarrow> 'a list \<Rightarrow> 'a list" where
  "copy_loop i stored copy =
     (if i < length stored then copy_loop (i + 1) stored (copy[i := stored ! i]) else copy)"
  by pat_completeness auto
termination
  by (relation "measure (\<lambda>(i, stored, copy). length stored - i)") auto

declare copy_loop.simps [simp del]

definition copyOptions :: "string list \<Rightarrow> string list" where
  "copyOptions stored = copy_loop 0 stored (replicate (length stored) [])"

definition copyUint64Array :: "uint64 list \<Rightarrow> uint64 list" where
  "copyUint64Array stored = copy_loop 0 stored (replicate (length stored) 0)"

definition getPollMetadata ::
  "state \<Rightarrow> uint256 \<Rightarrow> error + (string \<times> string list \<times> uint64 \<times> uint64 \<times> bool \<times> bool)" where
  "getPollMetadata s pollId =
     (case getPoll s pollId of
        Inl err \<Rightarrow> Inl err
      | Inr poll \<Rightarrow>
          Inr (name poll, copyOptions (options poll), startTime poll, endTime poll,
               finalized poll, resultsPublished poll))"

definition getEncryptedTallies :: "state \<Rightarrow> uint256 \<Rightarrow> error + euint32 list" where
  "getEncryptedTallies s pollId =
     (case getPoll s pollId of
        Inl err \<Rightarrow> Inl err
      | Inr poll \<Rightarrow>
          Inr (copy_loop 0 (tallies poll) (replicate (length (tallies poll)) Uninitialized)))"

definition getPublicResults :: "state \<Rightarrow> uint256 \<Rightarrow> error + uint64 list" where
  "getPublicResults s pollId =
     (case getPoll s pollId of
        Inl err \<Rightarrow> Inl err
      | Inr poll \<Rightarrow> Inr (copyUint64Array (clearResults poll)))"

definition hasAddressVoted :: "state \<Rightarrow> uint256 \<Rightarrow> address \<Rightarrow> bool" where
  "hasAddressVoted s pollId account =
     (if pollId \<ge> pollCount s then False else hasVoted s pollId account)"

subsection \<open>Calls and histories\<close>

text \<open>
  The four state-changing functions as one transition function, the return value of
  \<^verbatim>\<open>createPoll\<close> dropped.
\<close>

datatype call =
    CreatePoll string "string list" uint64 uint64
  | Vote uint256 externalEuint32 bytes
  | FinalizePoll uint256
  | PublishResults uint256 "uint64 list" bytes

fun exec :: "env \<Rightarrow> call \<Rightarrow> state \<Rightarrow> (error + unit) \<times> state" where
  "exec e (CreatePoll name' options' startTime' endTime') s =
     (case createPoll e name' options' startTime' endTime' s of
        (Inl err, s') \<Rightarrow> (Inl err, s')
      | (Inr pollId, s') \<Rightarrow> (Inr (), s'))"
| "exec e (Vote pollId encryptedChoice inputProof) s = vote e pollId encryptedChoice inputProof s"
| "exec e (FinalizePoll pollId) s = finalizePoll e pollId s"
| "exec e (PublishResults pollId clearResults' decryptionProof) s =
     publishResults e pollId clearResults' decryptionProof s"

text \<open>
  \<open>reachable t s\<close>: the storage \<open>s\<close> is what a history of successful calls leaves behind a
  fresh deployment, the block timestamps of the calls never decreasing and the last of
  them \<open>t\<close>. A reverted call leaves the storage as it was and so adds nothing.
\<close>

inductive reachable :: "uint256 \<Rightarrow> state \<Rightarrow> bool" where
  reachable_deployed: "reachable t deployed"
| reachable_call:
    "reachable t s \<Longrightarrow> t \<le> block_timestamp e \<Longrightarrow> exec e c s = (Inr (), s')
       \<Longrightarrow> reachable (block_timestamp e) s'"

text \<open>\<open>later s s'\<close>: some sequence of successful calls leads from \<open>s\<close> to \<open>s'\<close>.\<close>

inductive later :: "state \<Rightarrow> state \<Rightarrow> bool" where
  later_refl: "later s s"
| later_call: "later s s' \<Longrightarrow> exec e c s' = (Inr (), s'') \<Longrightarrow> later s s''"

subsection \<open>Invariants\<close>

text \<open>
  What holds of every slot of \<^verbatim>\<open>_polls\<close> in a storage reached at time \<open>t\<close>, and of the
  storage as a whole: a slot at or beyond the counter has never been written.
\<close>

definition poll_inv :: "uint256 \<Rightarrow> Poll \<Rightarrow> bool" where
  "poll_inv t p \<longleftrightarrow>
     length (tallies p) = length (options p)
     \<and> length (options p) \<le> 4
     \<and> (resultsPublished p \<longrightarrow> finalized p)
     \<and> (if resultsPublished p then length (clearResults p) = length (options p)
         else clearResults p = [])
     \<and> (finalized p \<longrightarrow> ucast (endTime p) \<le> t)"

definition state_inv :: "uint256 \<Rightarrow> state \<Rightarrow> bool" where
  "state_inv t s \<longleftrightarrow>
     (\<forall>pollId. poll_inv t (polls s pollId))
     \<and> (\<forall>pollId. pollCount s \<le> pollId \<longrightarrow> polls s pollId = zeroPoll)
     \<and> (\<forall>pollId. pollId < pollCount s \<longrightarrow> 2 \<le> length (options (polls s pollId)))"

subsection \<open>A run on the local network\<close>

text \<open>
  The run of the repository's test suite, used to evaluate the functions on concrete
  input: on chain 31337 a poll \<open>Weekly poll\<close> with the options \<open>Alice\<close> and \<open>Bob\<close> is
  created at time 1000 with window 1005 to 1065, a voter submits an encrypted 0, the
  poll is finalized at 1066 and the result is published with an empty proof. The mock
  capability accepts an external handle with any non-empty input proof, the handle
  being its own cleartext, and accepts the one decryption proof \<open>[1]\<close>.
\<close>

definition mock_fromExternal :: "address \<Rightarrow> externalEuint32 \<Rightarrow> bytes \<Rightarrow> euint32 option" where
  "mock_fromExternal account handle inputProof =
     (if inputProof = [] then None else Some (Ciphertext handle (ucast handle)))"

definition mock_checkSignatures :: "euint32 list \<Rightarrow> bytes \<Rightarrow> bytes \<Rightarrow> bool" where
  "mock_checkSignatures handles payload decryptionProof = (decryptionProof = [1])"

definition hardhat :: "uint256 \<Rightarrow> address \<Rightarrow> env" where
  "hardhat now' signer = \<lparr>block_timestamp = now', block_chainid = 31337, msg_sender = signer,
     FHE_fromExternal = mock_fromExternal, FHE_checkSignatures = mock_checkSignatures\<rparr>"

definition alice :: address where
  "alice = 0xA11CE"

definition bob :: address where
  "bob = 0xB0B"

definition weeklyPoll :: Poll where
  "weeklyPoll = \<lparr>name = ''Weekly poll'', options = [''Alice'', ''Bob''], startTime = 1005,
     endTime = 1065, finalized = False, resultsPublished = False, clearResults = [],
     tallies = [TrivialEncrypt 0, TrivialEncrypt 0]\<rparr>"

definition created :: state where
  "created = \<lparr>pollCount = 1, polls = (\<lambda>_. zeroPoll)(0 := weeklyPoll),
     hasVoted = (\<lambda>_ _. False), aclAllowed = {TrivialEncrypt 0}, aclPublic = {},
     emitted = [PollCreated 0 ''Weekly poll'' [''Alice'', ''Bob''] 1005 1065]\<rparr>"

text \<open>The handle of a tally \<open>t\<close> of option \<open>i\<close> after a ballot with cleartext \<open>c\<close>.\<close>

definition ballot :: "uint32 \<Rightarrow> nat \<Rightarrow> euint32 \<Rightarrow> euint32" where
  "ballot c i t =
     Add t (Select (Eq (Ciphertext (ucast c) c) (TrivialEncrypt (of_nat i)))
              (TrivialEncrypt 1) (TrivialEncrypt 0))"

definition votedPoll :: "uint32 \<Rightarrow> Poll" where
  "votedPoll c = weeklyPoll\<lparr>tallies :=
     [ballot c 0 (TrivialEncrypt 0), ballot c 1 (TrivialEncrypt 0)]\<rparr>"

definition voted :: "uint32 \<Rightarrow> state" where
  "voted c = created\<lparr>
     polls := (\<lambda>_. zeroPoll)(0 := votedPoll c),
     aclAllowed := {ballot c 1 (TrivialEncrypt 0), ballot c 0 (TrivialEncrypt 0), TrivialEncrypt 0},
     hasVoted := (\<lambda>_ _. False)(0 := (\<lambda>_. False)(alice := True)),
     emitted := emitted created @ [VoteCast 0 alice]\<rparr>"

definition closed :: state where
  "closed = (voted 0)\<lparr>
     aclPublic := {ballot 0 0 (TrivialEncrypt 0), ballot 0 1 (TrivialEncrypt 0)},
     polls := (\<lambda>_. zeroPoll)(0 := (votedPoll 0)\<lparr>finalized := True\<rparr>),
     emitted := emitted (voted 0) @ [PollFinalized 0]\<rparr>"

definition published :: state where
  "published = closed\<lparr>
     polls := (\<lambda>_. zeroPoll)(0 := (votedPoll 0)
       \<lparr>finalized := True, clearResults := [1, 0], resultsPublished := True\<rparr>),
     emitted := emitted closed @ [ResultsPublished 0 [1, 0]]\<rparr>"

text \<open>
  The storage after \<open>k\<close> ballots for option 0 on the weekly poll, all at time 1005, the
  \<open>k\<close>-th cast by the address \<open>k - 1\<close>.
\<close>

primrec ballots :: "nat \<Rightarrow> state" where
  "ballots 0 = created"
| "ballots (Suc k) = snd (vote (hardhat 1005 (of_nat k)) 0 0 [1] (ballots k))"

section \<open>The loops in closed form\<close>

lemma createPoll_loop_fst:
  "fst (createPoll_loop i opts poll acl) =
     poll\<lparr>options := options poll @ drop i opts,
          tallies := tallies poll @ replicate (length opts - i) (FHE_asEuint32 0)\<rparr>"
proof (induction i opts poll acl rule: createPoll_loop.induct)
  case (1 i opts poll acl)
  show ?case
  proof (cases "i < length opts")
    case True
    then have r: "replicate (length opts - i) (FHE_asEuint32 0) =
        FHE_asEuint32 0 # replicate (length opts - (i + 1)) (FHE_asEuint32 0)"
      by (simp add: Suc_diff_Suc flip: replicate_Suc)
    from True show ?thesis
      using "1.IH" [OF True refl refl refl]
      by (subst createPoll_loop.simps) (simp add: Let_def r Cons_nth_drop_Suc)
  next
    case False
    then show ?thesis
      by (subst createPoll_loop.simps) simp
  qed
qed

lemma vote_loop_length:
  "length (fst (vote_loop choice one zero i ts acl)) = length ts"
proof (induction choice one zero i ts acl rule: vote_loop.induct)
  case (1 choice one zero i ts acl)
  show ?case
  proof (cases "i < length ts")
    case True
    then show ?thesis
      using "1.IH" [OF True refl refl refl refl refl]
      by (subst vote_loop.simps) (simp add: Let_def)
  next
    case False
    then show ?thesis by (subst vote_loop.simps) simp
  qed
qed

lemma vote_loop_nth:
  "j < length ts \<Longrightarrow>
   fst (vote_loop choice one zero i ts acl) ! j =
     (if i \<le> j
      then FHE_add (ts ! j) (FHE_select (FHE_eq choice (FHE_asEuint32 (of_nat j))) one zero)
      else ts ! j)"
proof (induction choice one zero i ts acl arbitrary: j rule: vote_loop.induct)
  case (1 choice one zero i ts acl)
  show ?case
  proof (cases "i < length ts")
    case True
    have eq: "i = j" if "i \<le> j" "\<not> Suc i \<le> j"
      using that by arith
    from True show ?thesis
      using "1.IH" [OF True refl refl refl refl refl, of j] "1.prems"
      by (subst vote_loop.simps) (auto simp: Let_def nth_list_update dest: eq)
  next
    case False
    then show ?thesis using "1.prems" by (subst vote_loop.simps) simp
  qed
qed

lemma finalizePoll_loop_eq: "finalizePoll_loop i ts acl = acl \<union> set (drop i ts)"
proof (induction i ts acl rule: finalizePoll_loop.induct)
  case (1 i ts acl)
  show ?case
  proof (cases "i < length ts")
    case True
    then show ?thesis
      using "1.IH" [OF True]
      by (subst finalizePoll_loop.simps)
         (simp add: FHE_makePubliclyDecryptable_def flip: Cons_nth_drop_Suc)
  next
    case False
    then show ?thesis by (subst finalizePoll_loop.simps) simp
  qed
qed

lemma handles_loop_eq:
  "length handles = length ts \<Longrightarrow> handles_loop i ts handles = take i handles @ drop i ts"
proof (induction i ts handles rule: handles_loop.induct)
  case (1 i ts handles)
  show ?case
  proof (cases "i < length ts")
    case True
    then show ?thesis
      using "1.IH" [OF True] "1.prems"
      by (subst handles_loop.simps)
         (simp add: euint32_unwrap_def take_Suc_conv_app_nth flip: Cons_nth_drop_Suc)
  next
    case False
    then show ?thesis using "1.prems" by (subst handles_loop.simps) simp
  qed
qed

lemma publishResults_loop_eq: "publishResults_loop i xs stored = stored @ drop i xs"
proof (induction i xs stored rule: publishResults_loop.induct)
  case (1 i xs stored)
  show ?case
  proof (cases "i < length xs")
    case True
    then show ?thesis
      using "1.IH" [OF True]
      by (subst publishResults_loop.simps) (simp add: Cons_nth_drop_Suc)
  next
    case False
    then show ?thesis by (subst publishResults_loop.simps) simp
  qed
qed

lemma copy_loop_eq:
  "length copy = length stored \<Longrightarrow> copy_loop i stored copy = take i copy @ drop i stored"
proof (induction i stored copy rule: copy_loop.induct)
  case (1 i stored copy)
  show ?case
  proof (cases "i < length stored")
    case True
    then show ?thesis
      using "1.IH" [OF True] "1.prems"
      by (subst copy_loop.simps)
         (simp add: take_Suc_conv_app_nth flip: Cons_nth_drop_Suc)
  next
    case False
    then show ?thesis using "1.prems" by (subst copy_loop.simps) simp
  qed
qed

section \<open>Word arithmetic\<close>

lemma unat_succ: "(x::'a::len word) \<noteq> - 1 \<Longrightarrow> unat (x + 1) = unat x + 1"
proof -
  assume "x \<noteq> - 1"
  then have "1 + x \<noteq> 0"
    by (metis add.commute add_eq_0_iff)
  then have "unat (1 + x) = Suc (unat x)"
    by (rule unatSuc)
  then show ?thesis
    by (simp add: add.commute)
qed
lemma word_succ_le: "(x::'a::len word) \<noteq> - 1 \<Longrightarrow> x + 1 \<le> y \<longleftrightarrow> x < y"
  by (simp add: inc_less_eq_iff)

section \<open>What each function does\<close>

lemma createPoll_Inr_iff:
  "createPoll e name' os st en s = (Inr pid, s') \<longleftrightarrow>
     name' \<noteq> [] \<and> 2 \<le> length os \<and> length os \<le> 4 \<and> st < en \<and> block_timestamp e < ucast en
     \<and> pollCount s \<noteq> - 1 \<and> pid = pollCount s
     \<and> s' = s\<lparr>pollCount := pollCount s + 1,
              polls := (polls s)(pollCount s :=
                (polls s (pollCount s))\<lparr>name := name', startTime := st, endTime := en,
                   options := options (polls s (pollCount s)) @ os,
                   tallies := tallies (polls s (pollCount s)) @ replicate (length os) (FHE_asEuint32 0)\<rparr>),
              aclAllowed := snd (createPoll_loop 0 os
                ((polls s (pollCount s))\<lparr>name := name', startTime := st, endTime := en\<rparr>) (aclAllowed s)),
              emitted := emitted s @ [PollCreated (pollCount s) name' os st en]\<rparr>"
  by (auto simp: createPoll_def Let_def split_def createPoll_loop_fst not_le not_less)

lemma createPoll_Inl: "createPoll e name' os st en s = (Inl err, s') \<Longrightarrow> s' = s"
  by (auto simp: createPoll_def Let_def split_def split: if_splits)

lemma vote_Inr_iff:
  "vote e pollId enc prf s = (Inr u, s') \<longleftrightarrow>
     pollId < pollCount s
     \<and> ucast (startTime (polls s pollId)) \<le> block_timestamp e
     \<and> block_timestamp e < ucast (endTime (polls s pollId))
     \<and> \<not> hasVoted s pollId (msg_sender e)
     \<and> (\<exists>choice. FHE_fromExternal e (msg_sender e) enc prf = Some choice
          \<and> s' = s\<lparr>polls := (polls s)(pollId := (polls s pollId)
                      \<lparr>tallies := fst (vote_loop choice (FHE_asEuint32 1) (FHE_asEuint32 0) 0
                                         (tallies (polls s pollId)) (aclAllowed s))\<rparr>),
                   aclAllowed := snd (vote_loop choice (FHE_asEuint32 1) (FHE_asEuint32 0) 0
                                         (tallies (polls s pollId)) (aclAllowed s)),
                   hasVoted := (hasVoted s)(pollId := (hasVoted s pollId)(msg_sender e := True)),
                   emitted := emitted s @ [VoteCast pollId (msg_sender e)]\<rparr>)"
  by (auto simp: vote_def getPoll_def Let_def split_def not_le not_less split: option.splits)

lemma vote_Inl: "vote e pollId enc prf s = (Inl err, s') \<Longrightarrow> s' = s"
  by (auto simp: vote_def getPoll_def Let_def split_def split: if_splits option.splits)

lemma vote_fst:
  "fst (vote e pollId enc pr s) =
     (if pollCount s \<le> pollId then Inl (PollNotFound pollId)
      else if block_timestamp e < ucast (startTime (polls s pollId))
              \<or> ucast (endTime (polls s pollId)) \<le> block_timestamp e
        then Inl (PollNotActive pollId)
      else if hasVoted s pollId (msg_sender e)
        then Inl (AddressAlreadyVoted pollId (msg_sender e))
      else if FHE_fromExternal e (msg_sender e) enc pr = None then Inl InputProofRejected
      else Inr ())"
  by (auto simp: vote_def getPoll_def Let_def split_def split: option.splits)

lemma vote_snd_Inl: "fst (vote e pollId enc pr s) = Inl err \<Longrightarrow> snd (vote e pollId enc pr s) = s"
  by (metis prod.collapse vote_Inl)

lemma finalizePoll_Inr_iff:
  "finalizePoll e pollId s = (Inr u, s') \<longleftrightarrow>
     pollId < pollCount s
     \<and> ucast (endTime (polls s pollId)) \<le> block_timestamp e
     \<and> \<not> finalized (polls s pollId)
     \<and> s' = s\<lparr>aclPublic := aclPublic s \<union> set (tallies (polls s pollId)),
              polls := (polls s)(pollId := (polls s pollId)\<lparr>finalized := True\<rparr>),
              emitted := emitted s @ [PollFinalized pollId]\<rparr>"
  by (auto simp: finalizePoll_def getPoll_def Let_def finalizePoll_loop_eq not_le not_less)

lemma finalizePoll_Inl: "finalizePoll e pollId s = (Inl err, s') \<Longrightarrow> s' = s"
  by (auto simp: finalizePoll_def getPoll_def Let_def split: if_splits)

lemma handles_eq:
  "handles_loop 0 ts (replicate (length ts) Uninitialized) = ts"
  by (simp add: handles_loop_eq)

lemma publishResults_Inr_iff:
  "publishResults e pollId res prf s = (Inr u, s') \<longleftrightarrow>
     pollId < pollCount s
     \<and> finalized (polls s pollId)
     \<and> \<not> resultsPublished (polls s pollId)
     \<and> length res = length (tallies (polls s pollId))
     \<and> (shouldVerify e prf \<longrightarrow>
          FHE_checkSignatures e (tallies (polls s pollId)) (abi_encodePacked res) prf)
     \<and> s' = s\<lparr>polls := (polls s)(pollId := (polls s pollId)
                  \<lparr>clearResults := res, resultsPublished := True\<rparr>),
              emitted := emitted s @ [ResultsPublished pollId res]\<rparr>"
  by (auto simp: publishResults_def getPoll_def Let_def handles_eq publishResults_loop_eq
        not_le not_less)

lemma publishResults_Inl: "publishResults e pollId res prf s = (Inl err, s') \<Longrightarrow> s' = s"
  by (auto simp: publishResults_def getPoll_def Let_def split: if_splits)

lemma exec_Inl: "exec e c s = (Inl err, s') \<Longrightarrow> s' = s"
  by (cases c)
     (auto dest: createPoll_Inl vote_Inl finalizePoll_Inl publishResults_Inl
        split: prod.splits sum.splits)

section \<open>Invariants of reachable storage\<close>

lemma poll_inv_zeroPoll: "poll_inv t zeroPoll"
  by (simp add: poll_inv_def zeroPoll_def)

lemma state_inv_deployed: "state_inv t deployed"
  by (simp add: state_inv_def deployed_def poll_inv_zeroPoll)

lemma poll_inv_mono: "poll_inv t p \<Longrightarrow> t \<le> t' \<Longrightarrow> poll_inv t' p"
  by (auto simp: poll_inv_def)

lemma state_inv_mono: "state_inv t s \<Longrightarrow> t \<le> t' \<Longrightarrow> state_inv t' s"
  by (auto simp: state_inv_def intro: poll_inv_mono)

lemma createPoll_inv:
  assumes inv: "state_inv t s" and ok: "createPoll e name' os st en s = (Inr pid, s')"
  shows "state_inv t s'"
proof -
  from ok have c: "name' \<noteq> []" "2 \<le> length os" "length os \<le> 4" "pollCount s \<noteq> - 1"
    and s': "s' = s\<lparr>pollCount := pollCount s + 1,
              polls := (polls s)(pollCount s :=
                (polls s (pollCount s))\<lparr>name := name', startTime := st, endTime := en,
                   options := options (polls s (pollCount s)) @ os,
                   tallies := tallies (polls s (pollCount s)) @ replicate (length os) (FHE_asEuint32 0)\<rparr>),
              aclAllowed := snd (createPoll_loop 0 os
                ((polls s (pollCount s))\<lparr>name := name', startTime := st, endTime := en\<rparr>) (aclAllowed s)),
              emitted := emitted s @ [PollCreated (pollCount s) name' os st en]\<rparr>"
    by (simp_all add: createPoll_Inr_iff)
  from inv have z: "polls s (pollCount s) = zeroPoll"
    by (simp add: state_inv_def)
  have new: "poll_inv t (zeroPoll\<lparr>name := name', startTime := st, endTime := en,
      options := options zeroPoll @ os,
      tallies := tallies zeroPoll @ replicate (length os) (FHE_asEuint32 0)\<rparr>)"
    using c by (simp add: poll_inv_def zeroPoll_def)
  have lt: "pollId < pollCount s + 1 \<longleftrightarrow> pollId \<le> pollCount s" for pollId
    using c(4) word_succ_le [of "pollCount s" pollId] by (auto simp: not_le [symmetric])
  show ?thesis
    unfolding state_inv_def
  proof (intro conjI allI impI)
    fix pollId show "poll_inv t (polls s' pollId)"
      using inv new by (simp add: s' z state_inv_def)
  next
    fix pollId assume "pollCount s' \<le> pollId"
    then have "pollCount s < pollId"
      using c(4) by (simp add: s' word_succ_le)
    then show "polls s' pollId = zeroPoll"
      using inv by (simp add: s' state_inv_def)
  next
    fix pollId assume "pollId < pollCount s'"
    then have "pollId \<le> pollCount s"
      by (simp add: s' lt)
    then show "2 \<le> length (options (polls s' pollId))"
      using inv c by (auto simp: s' z state_inv_def zeroPoll_def order_le_less)
  qed
qed

lemma vote_inv:
  assumes inv: "state_inv t s" and ok: "vote e pollId enc prf s = (Inr u, s')"
  shows "state_inv t s'"
proof -
  from ok obtain choice where
    s': "s' = s\<lparr>polls := (polls s)(pollId := (polls s pollId)
                      \<lparr>tallies := fst (vote_loop choice (FHE_asEuint32 1) (FHE_asEuint32 0) 0
                                         (tallies (polls s pollId)) (aclAllowed s))\<rparr>),
                   aclAllowed := snd (vote_loop choice (FHE_asEuint32 1) (FHE_asEuint32 0) 0
                                         (tallies (polls s pollId)) (aclAllowed s)),
                   hasVoted := (hasVoted s)(pollId := (hasVoted s pollId)(msg_sender e := True)),
                   emitted := emitted s @ [VoteCast pollId (msg_sender e)]\<rparr>"
    and ex: "pollId < pollCount s"
    by (auto simp: vote_Inr_iff)
  have p: "poll_inv t (polls s pollId)"
    using inv by (simp add: state_inv_def)
  then have "poll_inv t ((polls s pollId)
      \<lparr>tallies := fst (vote_loop choice (FHE_asEuint32 1) (FHE_asEuint32 0) 0
                        (tallies (polls s pollId)) (aclAllowed s))\<rparr>)"
    by (simp add: poll_inv_def vote_loop_length)
  then show ?thesis
    using inv ex by (auto simp: s' state_inv_def)
qed

lemma finalizePoll_inv:
  assumes inv: "state_inv t s" and t: "t \<le> block_timestamp e"
    and ok: "finalizePoll e pollId s = (Inr u, s')"
  shows "state_inv (block_timestamp e) s'"
proof -
  from ok have
    s': "s' = s\<lparr>aclPublic := aclPublic s \<union> set (tallies (polls s pollId)),
              polls := (polls s)(pollId := (polls s pollId)\<lparr>finalized := True\<rparr>),
              emitted := emitted s @ [PollFinalized pollId]\<rparr>"
    and ex: "pollId < pollCount s"
    and en: "ucast (endTime (polls s pollId)) \<le> block_timestamp e"
    by (simp_all add: finalizePoll_Inr_iff)
  from inv t have inv': "state_inv (block_timestamp e) s"
    by (rule state_inv_mono)
  then have "poll_inv (block_timestamp e) (polls s pollId)"
    by (simp add: state_inv_def)
  with en have "poll_inv (block_timestamp e) ((polls s pollId)\<lparr>finalized := True\<rparr>)"
    by (simp add: poll_inv_def)
  then show ?thesis
    using inv' ex by (auto simp: s' state_inv_def)
qed

lemma publishResults_inv:
  assumes inv: "state_inv t s" and ok: "publishResults e pollId res prf s = (Inr u, s')"
  shows "state_inv t s'"
proof -
  from ok have
    s': "s' = s\<lparr>polls := (polls s)(pollId := (polls s pollId)
                  \<lparr>clearResults := res, resultsPublished := True\<rparr>),
              emitted := emitted s @ [ResultsPublished pollId res]\<rparr>"
    and ex: "pollId < pollCount s"
    and c: "finalized (polls s pollId)" "length res = length (tallies (polls s pollId))"
    by (simp_all add: publishResults_Inr_iff)
  have "poll_inv t (polls s pollId)"
    using inv by (simp add: state_inv_def)
  with c have "poll_inv t ((polls s pollId)\<lparr>clearResults := res, resultsPublished := True\<rparr>)"
    by (simp add: poll_inv_def)
  then show ?thesis
    using inv ex by (auto simp: s' state_inv_def)
qed

lemma exec_inv:
  assumes inv: "state_inv t s" and t: "t \<le> block_timestamp e"
    and ok: "exec e c s = (Inr u, s')"
  shows "state_inv (block_timestamp e) s'"
proof (cases c)
  case (CreatePoll name' os st en)
  with ok obtain pid where "createPoll e name' os st en s = (Inr pid, s')"
    by (auto split: prod.splits sum.splits)
  with inv have "state_inv t s'"
    by (rule createPoll_inv)
  then show ?thesis using t by (rule state_inv_mono)
next
  case (Vote pollId enc pr)
  with ok inv have "state_inv t s'"
    by (auto intro: vote_inv)
  then show ?thesis using t by (rule state_inv_mono)
next
  case (FinalizePoll pollId)
  with ok inv t show ?thesis
    by (auto intro: finalizePoll_inv)
next
  case (PublishResults pollId res pr)
  with ok inv have "state_inv t s'"
    by (auto intro: publishResults_inv)
  then show ?thesis using t by (rule state_inv_mono)
qed

lemma reachable_inv: "reachable t s \<Longrightarrow> state_inv t s"
proof (induction rule: reachable.induct)
  case (reachable_deployed t)
  show ?case by (rule state_inv_deployed)
next
  case (reachable_call t s e c s')
  then show ?case by (auto intro: exec_inv)
qed

section \<open>The run on the local network\<close>

lemmas scenario_defs = hardhat_def deployed_def created_def weeklyPoll_def zeroPoll_def
  voted_def votedPoll_def closed_def published_def ballot_def mock_fromExternal_def
  mock_checkSignatures_def alice_def bob_def

lemmas FHE_defs = FHE_asEuint32_def FHE_allowThis_def FHE_add_def FHE_eq_def FHE_select_def
  FHE_makePubliclyDecryptable_def

lemma created_ok:
  "createPoll (hardhat 1000 alice) ''Weekly poll'' [''Alice'', ''Bob''] 1005 1065 deployed
     = (Inr 0, created)"
  by (simp add: createPoll_Inr_iff scenario_defs createPoll_loop.simps FHE_defs)

lemma voted_ok: "vote (hardhat 1005 alice) 0 0 [1] created = (Inr (), voted 0)"
  by (simp add: vote_Inr_iff scenario_defs vote_loop.simps FHE_defs Let_def)

lemma voted_out_of_range_ok: "vote (hardhat 1005 alice) 0 7 [1] created = (Inr (), voted 7)"
  by (simp add: vote_Inr_iff scenario_defs vote_loop.simps FHE_defs Let_def)

lemma closed_ok: "finalizePoll (hardhat 1066 bob) 0 (voted 0) = (Inr (), closed)"
  by (simp add: finalizePoll_Inr_iff scenario_defs insert_commute)

lemma published_ok: "publishResults (hardhat 1066 bob) 0 [1, 0] [] closed = (Inr (), published)"
  by (simp add: publishResults_Inr_iff scenario_defs shouldVerify_def)

lemma reachable_created: "reachable 1000 created"
  using reachable_call [OF reachable_deployed [of 0], of "hardhat 1000 alice"
      "CreatePoll ''Weekly poll'' [''Alice'', ''Bob''] 1005 1065" created]
  by (simp add: created_ok) (simp add: hardhat_def)

lemma reachable_voted: "reachable 1005 (voted 0)"
  using reachable_call [OF reachable_created, of "hardhat 1005 alice" "Vote 0 0 [1]" "voted 0"]
    voted_ok
  by simp (simp add: hardhat_def)

lemma reachable_closed: "reachable 1066 closed"
  using reachable_call [OF reachable_voted, of "hardhat 1066 bob" "FinalizePoll 0" closed]
  by (simp add: closed_ok) (simp add: hardhat_def)

lemma reachable_published: "reachable 1066 published"
  using reachable_call [OF reachable_closed, of "hardhat 1066 bob"
      "PublishResults 0 [1, 0] []" published]
  by (simp add: published_ok) (simp add: hardhat_def)

section \<open>Claims about vote\<close>

lemma of_nat_eq_iff_unat:
  "i < 2 ^ LENGTH('a) \<Longrightarrow> (w = (of_nat i :: 'a::len word)) \<longleftrightarrow> unat w = i"
  by (metis of_nat_inverse word_nchotomy)

lemma unat_add_indicator:
  "unat (w::'a::len word) < 2 ^ LENGTH('a) - 1 \<Longrightarrow>
     unat (w + (if b then 1 else 0)) = unat w + (if b then 1 else 0)"
  by (cases b) (auto simp: unat_plus_if')

lemma decrypt_increment:
  "decrypt (FHE_add t (FHE_select (FHE_eq choice (FHE_asEuint32 v)) (FHE_asEuint32 1)
      (FHE_asEuint32 0))) = decrypt t + (if decrypt choice = v then 1 else 0)"
  by (simp add: FHE_defs)

lemma reachable_option_count:
  "reachable t s \<Longrightarrow> length (tallies (polls s pollId)) = length (options (polls s pollId))
     \<and> length (options (polls s pollId)) \<le> 4"
  using reachable_inv [of t s] by (simp add: state_inv_def poll_inv_def)

lemma unat_address: "k < 2 ^ 160 \<Longrightarrow> unat (of_nat k :: address) = k"
  by (simp add: unat_of_nat)

lemma ballots_inv:
  "k \<le> 2 ^ 160 \<Longrightarrow>
     pollCount (ballots k) = 1
     \<and> startTime (polls (ballots k) 0) = 1005
     \<and> endTime (polls (ballots k) 0) = 1065
     \<and> length (tallies (polls (ballots k) 0)) = 2
     \<and> decrypt (tallies (polls (ballots k) 0) ! 0) = of_nat k
     \<and> (\<forall>a. hasVoted (ballots k) 0 a \<longrightarrow> unat a < k)
     \<and> reachable (if k = 0 then 1000 else 1005) (ballots k)"
proof (induction k)
  case 0
  show ?case
    using reachable_created by (simp add: scenario_defs)
next
  case (Suc k)
  let ?e = "hardhat 1005 (of_nat k)"
  let ?s = "ballots k"
  from Suc.prems have k: "k < 2 ^ 160"
    by simp
  with Suc.IH have inv: "pollCount ?s = 1" "startTime (polls ?s 0) = 1005"
    "endTime (polls ?s 0) = 1065" "length (tallies (polls ?s 0)) = 2"
    "decrypt (tallies (polls ?s 0) ! 0) = of_nat k"
    "\<forall>a. hasVoted ?s 0 a \<longrightarrow> unat a < k"
    "reachable (if k = 0 then 1000 else 1005) ?s"
    by simp_all
  from inv(6) k have fresh: "\<not> hasVoted ?s 0 (msg_sender ?e)"
    by (auto simp: hardhat_def unat_address)
  have fe: "FHE_fromExternal ?e (msg_sender ?e) 0 [1] = Some (Ciphertext 0 0)"
    by (simp add: hardhat_def mock_fromExternal_def)
  have "fst (vote ?e 0 0 [1] ?s) = Inr ()"
    using fresh fe inv(1-3) by (simp add: vote_fst) (simp add: hardhat_def)
  then have run: "vote ?e 0 0 [1] ?s = (Inr (), ballots (Suc k))"
    by (metis ballots.simps(2) prod.collapse)
  then have s': "ballots (Suc k) = ?s\<lparr>polls := (polls ?s)(0 := (polls ?s 0)
                      \<lparr>tallies := fst (vote_loop (Ciphertext 0 0) (FHE_asEuint32 1)
                          (FHE_asEuint32 0) 0 (tallies (polls ?s 0)) (aclAllowed ?s))\<rparr>),
                   aclAllowed := snd (vote_loop (Ciphertext 0 0) (FHE_asEuint32 1)
                          (FHE_asEuint32 0) 0 (tallies (polls ?s 0)) (aclAllowed ?s)),
                   hasVoted := (hasVoted ?s)(0 := (hasVoted ?s 0)(msg_sender ?e := True)),
                   emitted := emitted ?s @ [VoteCast 0 (msg_sender ?e)]\<rparr>"
    using fe by (simp add: vote_Inr_iff)
  have "decrypt (tallies (polls (ballots (Suc k)) 0) ! 0) = of_nat (Suc k)"
    using inv(4,5) by (subst s') (simp add: vote_loop_nth decrypt_increment)
  moreover have "\<forall>a. hasVoted (ballots (Suc k)) 0 a \<longrightarrow> unat a < Suc k"
    using inv(6) k by (subst s') (auto simp: hardhat_def unat_address less_Suc_eq)
  moreover have "reachable 1005 (ballots (Suc k))"
    using reachable_call [OF inv(7), of ?e "Vote 0 0 [1]" "ballots (Suc k)"] run
    by (simp add: hardhat_def)
  moreover have "pollCount (ballots (Suc k)) = 1"
    "startTime (polls (ballots (Suc k)) 0) = 1005"
    "endTime (polls (ballots (Suc k)) 0) = 1065"
    "length (tallies (polls (ballots (Suc k)) 0)) = 2"
    using inv(1-4) by (subst s', simp add: vote_loop_length)+
  ultimately show ?case
    by simp
qed

lemma ballots_vote:
  assumes "k < 2 ^ 160"
  shows "vote (hardhat 1005 (of_nat k)) 0 0 [1] (ballots k) = (Inr (), ballots (Suc k))"
proof -
  let ?e = "hardhat 1005 (of_nat k)"
  from assms ballots_inv [of k] have inv: "pollCount (ballots k) = 1"
    "startTime (polls (ballots k) 0) = 1005" "endTime (polls (ballots k) 0) = 1065"
    "\<forall>a. hasVoted (ballots k) 0 a \<longrightarrow> unat a < k"
    by simp_all
  from inv(4) assms have "\<not> hasVoted (ballots k) 0 (msg_sender ?e)"
    by (auto simp: hardhat_def unat_address)
  moreover have "FHE_fromExternal ?e (msg_sender ?e) 0 [1] = Some (Ciphertext 0 0)"
    by (simp add: hardhat_def mock_fromExternal_def)
  ultimately have "fst (vote ?e 0 0 [1] (ballots k)) = Inr ()"
    using inv(1-3) by (simp add: vote_fst) (simp add: hardhat_def)
  then show ?thesis
    by (metis ballots.simps(2) prod.collapse)
qed

lemma unat_add_indicator_mod:
  "unat ((w::'a::len word) + (if b then 1 else 0))
     = (unat w + (if b then 1 else 0)) mod 2 ^ LENGTH('a)"
  by (cases b) (simp_all add: unat_word_ariths)

text \<open>
  C1, the claim as stated fails: the tallies are 32-bit and \<^verbatim>\<open>FHE.add\<close> wraps around. After
  4294967295 ballots for option 0 from as many addresses, a storage reachable from
  deployment, the tally of option 0 decrypts to 4294967295; one more ballot for option 0
  returns, and the tally decrypts to 0: it has not increased by 1.
\<close>

theorem vote_tallies_counterexample:
  "reachable 1005 (ballots 4294967295)
   \<and> vote (hardhat 1005 4294967295) 0 0 [1] (ballots 4294967295)
       = (Inr (), ballots (Suc 4294967295))
   \<and> FHE_fromExternal (hardhat 1005 4294967295) (msg_sender (hardhat 1005 4294967295)) 0 [1]
       = Some (Ciphertext 0 0)
   \<and> unat (decrypt (Ciphertext 0 0)) = 0
   \<and> unat (decrypt (tallies (polls (ballots 4294967295) 0) ! 0)) = 4294967295
   \<and> unat (decrypt (tallies (polls (ballots (Suc 4294967295)) 0) ! 0)) = 0"
proof -
  have b: "(4294967295 :: nat) \<le> 2 ^ 160" "Suc 4294967295 \<le> 2 ^ 160"
    "(4294967295 :: nat) < 2 ^ 160"
    by simp_all
  from ballots_inv [OF b(1)] have "reachable 1005 (ballots 4294967295)"
    "decrypt (tallies (polls (ballots 4294967295) 0) ! 0) = 4294967295"
    by simp_all
  moreover from ballots_inv [OF b(2)]
  have "decrypt (tallies (polls (ballots (Suc 4294967295)) 0) ! 0) = 0"
    by simp
  moreover from ballots_vote [OF b(3)]
  have "vote (hardhat 1005 4294967295) 0 0 [1] (ballots 4294967295)
       = (Inr (), ballots (Suc 4294967295))"
    by simp
  ultimately show ?thesis
    by (simp add: hardhat_def mock_fromExternal_def)
qed

text \<open>
  C1, amended. A successful \<open>vote\<close> on a poll with \<open>n\<close> options, the submitted choice
  decoded to a handle that decrypts to \<open>c\<close>: for every option index \<open>i < n\<close> the new tally
  handle is \<^verbatim>\<open>FHE.add\<close> of the old one and \<^verbatim>\<open>FHE.select(FHE.eq(choice, i), one, zero)\<close>, so
  what it decrypts to is the old value plus 1 if \<open>c = i\<close> and plus 0 otherwise, modulo
  \<open>2^32\<close>: exactly 1 or 0 more while the old value is below \<open>2^32 - 1\<close>, and 0 after
  \<open>2^32 - 1\<close>. The poll's other fields are unchanged and the caller is recorded in
  \<^verbatim>\<open>_hasVoted\<close>.
\<close>

theorem vote_tallies:
  assumes "reachable t s"
    and "vote e pollId encryptedChoice inputProof s = (Inr (), s')"
    and "FHE_fromExternal e (msg_sender e) encryptedChoice inputProof = Some choice"
  shows "(\<forall>i < length (options (polls s pollId)).
            tallies (polls s' pollId) ! i =
              FHE_add (tallies (polls s pollId) ! i)
                (FHE_select (FHE_eq choice (FHE_asEuint32 (of_nat i)))
                   (FHE_asEuint32 1) (FHE_asEuint32 0))
          \<and> decrypt (tallies (polls s' pollId) ! i) =
              decrypt (tallies (polls s pollId) ! i)
                + (if unat (decrypt choice) = i then 1 else 0)
          \<and> unat (decrypt (tallies (polls s' pollId) ! i)) =
              (unat (decrypt (tallies (polls s pollId) ! i))
                 + (if unat (decrypt choice) = i then 1 else 0)) mod 2 ^ 32
          \<and> (unat (decrypt (tallies (polls s pollId) ! i)) < 2 ^ 32 - 1 \<longrightarrow>
              unat (decrypt (tallies (polls s' pollId) ! i)) =
                unat (decrypt (tallies (polls s pollId) ! i))
                  + (if unat (decrypt choice) = i then 1 else 0)))
       \<and> length (tallies (polls s' pollId)) = length (options (polls s pollId))
       \<and> polls s' pollId = (polls s pollId)\<lparr>tallies := tallies (polls s' pollId)\<rparr>
       \<and> (\<forall>other. other \<noteq> pollId \<longrightarrow> polls s' other = polls s other)
       \<and> pollCount s' = pollCount s
       \<and> hasVoted s' pollId (msg_sender e)"
proof -
  let ?old = "tallies (polls s pollId)"
  let ?new = "fst (vote_loop choice (FHE_asEuint32 1) (FHE_asEuint32 0) 0 ?old (aclAllowed s))"
  from assms(2,3) have s': "polls s' = (polls s)(pollId := (polls s pollId)\<lparr>tallies := ?new\<rparr>)"
    "pollCount s' = pollCount s" "hasVoted s' pollId (msg_sender e)"
    by (auto simp: vote_Inr_iff)
  from assms(1) have n: "length ?old = length (options (polls s pollId))"
    "length (options (polls s pollId)) \<le> 4"
    by (simp_all add: reachable_option_count)
  have step: "?new ! i =
        FHE_add (?old ! i) (FHE_select (FHE_eq choice (FHE_asEuint32 (of_nat i)))
          (FHE_asEuint32 1) (FHE_asEuint32 0))
      \<and> decrypt (?new ! i) = decrypt (?old ! i) + (if unat (decrypt choice) = i then 1 else 0)
      \<and> unat (decrypt (?new ! i)) =
          (unat (decrypt (?old ! i)) + (if unat (decrypt choice) = i then 1 else 0)) mod 2 ^ 32
      \<and> (unat (decrypt (?old ! i)) < 2 ^ 32 - 1 \<longrightarrow>
          unat (decrypt (?new ! i)) =
            unat (decrypt (?old ! i)) + (if unat (decrypt choice) = i then 1 else 0))"
    if "i < length (options (polls s pollId))" for i
  proof -
    from that n have i: "i < length ?old" "i < 2 ^ LENGTH(32)"
      by simp_all
    have handle: "?new ! i =
        FHE_add (?old ! i) (FHE_select (FHE_eq choice (FHE_asEuint32 (of_nat i)))
          (FHE_asEuint32 1) (FHE_asEuint32 0))"
      using i(1) by (simp add: vote_loop_nth)
    have "decrypt (?new ! i) = decrypt (?old ! i) + (if decrypt choice = of_nat i then 1 else 0)"
      by (simp only: handle decrypt_increment)
    then have val: "decrypt (?new ! i) =
        decrypt (?old ! i) + (if unat (decrypt choice) = i then 1 else 0)"
      by (simp only: of_nat_eq_iff_unat [OF i(2)])
    have "unat (decrypt (?new ! i)) =
        unat (decrypt (?old ! i)) + (if unat (decrypt choice) = i then 1 else 0)"
      if "unat (decrypt (?old ! i)) < 2 ^ 32 - 1"
      using unat_add_indicator [of "decrypt (?old ! i)" "unat (decrypt choice) = i"] that
      by (simp only: val) simp
    moreover have "unat (decrypt (?new ! i)) =
        (unat (decrypt (?old ! i)) + (if unat (decrypt choice) = i then 1 else 0)) mod 2 ^ 32"
      using unat_add_indicator_mod [of "decrypt (?old ! i)" "unat (decrypt choice) = i"]
      by (simp only: val) simp
    ultimately show ?thesis
      using handle val by blast
  qed
  have tl: "tallies (polls s' pollId) = ?new"
    by (simp add: s')
  have "length (tallies (polls s' pollId)) = length (options (polls s pollId))"
    by (simp add: tl vote_loop_length n)
  moreover have "polls s' pollId = (polls s pollId)\<lparr>tallies := tallies (polls s' pollId)\<rparr>"
    by (simp add: s')
  moreover have "\<forall>other. other \<noteq> pollId \<longrightarrow> polls s' other = polls s other"
    by (simp add: s')
  ultimately show ?thesis
    unfolding tl using step s'(2,3) by blast
qed

theorem vote_tallies_witness:
  "reachable 1000 created
   \<and> vote (hardhat 1005 alice) 0 0 [1] created = (Inr (), voted 0)
   \<and> FHE_fromExternal (hardhat 1005 alice) alice 0 [1] = Some (Ciphertext 0 0)
   \<and> decrypt (tallies (polls created 0) ! 0) = 0
   \<and> decrypt (tallies (polls created 0) ! 1) = 0
   \<and> decrypt (tallies (polls (voted 0) 0) ! 0) = 1
   \<and> decrypt (tallies (polls (voted 0) 0) ! 1) = 0
   \<and> hasVoted (voted 0) 0 alice
   \<and> reachable 1005 (voted 0)
   \<and> fst (vote (hardhat 1006 bob) 0 1 [1] (voted 0)) = Inr ()
   \<and> FHE_fromExternal (hardhat 1006 bob) bob 1 [1] = Some (Ciphertext 1 1)
   \<and> map decrypt (tallies (polls (snd (vote (hardhat 1006 bob) 0 1 [1] (voted 0))) 0)) = [1, 1]"
proof -
  have fe: "FHE_fromExternal (hardhat 1005 alice) (msg_sender (hardhat 1005 alice)) 0 [1]
      = Some (Ciphertext 0 0)"
    "FHE_fromExternal (hardhat 1006 bob) (msg_sender (hardhat 1006 bob)) 1 [1]
      = Some (Ciphertext 1 1)"
    by (simp_all add: scenario_defs)
  have n: "length (options (polls created 0)) = 2" "length (options (polls (voted 0) 0)) = 2"
    by (simp_all add: scenario_defs)
  have old: "decrypt (tallies (polls created 0) ! 0) = 0"
    "decrypt (tallies (polls created 0) ! 1) = 0"
    by (simp_all add: scenario_defs)
  note c1 = vote_tallies [OF reachable_created voted_ok fe(1)]
  from c1 have "\<forall>i < length (options (polls created 0)).
      decrypt (tallies (polls (voted 0) 0) ! i) =
        decrypt (tallies (polls created 0) ! i)
          + (if unat (decrypt (Ciphertext 0 0)) = i then 1 else 0)"
    by blast
  then have new: "decrypt (tallies (polls (voted 0) 0) ! i) =
        decrypt (tallies (polls created 0) ! i)
          + (if unat (decrypt (Ciphertext 0 0)) = i then 1 else 0)"
    if "i < 2" for i
    using that by (simp only: n)
  have first: "decrypt (tallies (polls (voted 0) 0) ! 0) = 1"
    "decrypt (tallies (polls (voted 0) 0) ! 1) = 0"
    using new [of 0] new [of 1] old by simp_all
  from c1 have voter: "hasVoted (voted 0) 0 (msg_sender (hardhat 1005 alice))"
    by blast
  let ?s = "snd (vote (hardhat 1006 bob) 0 1 [1] (voted 0))"
  have ok: "fst (vote (hardhat 1006 bob) 0 1 [1] (voted 0)) = Inr ()"
    by (simp add: vote_fst scenario_defs)
  then have run: "vote (hardhat 1006 bob) 0 1 [1] (voted 0) = (Inr (), ?s)"
    by (metis prod.collapse)
  note c1' = vote_tallies [OF reachable_voted run fe(2)]
  from c1' have len: "length (tallies (polls ?s 0)) = 2"
    by (simp only: n)
  from c1' have "\<forall>i < length (options (polls (voted 0) 0)).
      decrypt (tallies (polls ?s 0) ! i) =
        decrypt (tallies (polls (voted 0) 0) ! i)
          + (if unat (decrypt (Ciphertext 1 1)) = i then 1 else 0)"
    by blast
  then have new': "decrypt (tallies (polls ?s 0) ! i) =
        decrypt (tallies (polls (voted 0) 0) ! i)
          + (if unat (decrypt (Ciphertext 1 1)) = i then 1 else 0)"
    if "i < 2" for i
    using that by (simp only: n)
  have second: "decrypt (tallies (polls ?s 0) ! 0) = 1" "decrypt (tallies (polls ?s 0) ! 1) = 1"
    using new' [of 0] new' [of 1] first by simp_all
  from len obtain a b where ab: "tallies (polls ?s 0) = [a, b]"
    by (auto simp: length_Suc_conv numeral_2_eq_2)
  with second have "map decrypt (tallies (polls ?s 0)) = [1, 1]"
    by simp
  with first voter ok show ?thesis
    using reachable_created reachable_voted voted_ok fe old by (simp add: hardhat_def)
qed

lemma exec_Inr_cases:
  assumes "exec e c s = (Inr u, s')"
  obtains (create) name' os st en pid where "c = CreatePoll name' os st en"
      "createPoll e name' os st en s = (Inr pid, s')"
    | (vote) pollId enc pr where "c = Vote pollId enc pr" "vote e pollId enc pr s = (Inr (), s')"
    | (finalize) pollId where "c = FinalizePoll pollId" "finalizePoll e pollId s = (Inr (), s')"
    | (publish) pollId res pr where "c = PublishResults pollId res pr"
        "publishResults e pollId res pr s = (Inr (), s')"
  using assms by (cases c) (auto split: prod.splits sum.splits)

lemma exec_keeps:
  assumes "exec e c s = (r, s')"
  shows "(finalized (polls s i) \<longrightarrow> finalized (polls s' i))
    \<and> (resultsPublished (polls s i) \<longrightarrow>
          resultsPublished (polls s' i) \<and> clearResults (polls s' i) = clearResults (polls s i))
    \<and> (hasVoted s i a \<longrightarrow> hasVoted s' i a)
    \<and> (\<not> finalized (polls s i) \<and> finalized (polls s' i) \<longrightarrow>
          ucast (endTime (polls s i)) \<le> block_timestamp e
          \<and> endTime (polls s' i) = endTime (polls s i))"
proof (cases r)
  case (Inl err)
  with assms have "s' = s"
    by (auto dest: exec_Inl)
  then show ?thesis by simp
next
  case (Inr u)
  with assms have "exec e c s = (Inr u, s')"
    by simp
  then show ?thesis
  proof (cases rule: exec_Inr_cases)
    case create
    then show ?thesis by (auto simp: createPoll_Inr_iff split: if_splits)
  next
    case vote
    then show ?thesis by (auto simp: vote_Inr_iff split: if_splits)
  next
    case finalize
    then show ?thesis by (auto simp: finalizePoll_Inr_iff split: if_splits)
  next
    case publish
    then show ?thesis by (auto simp: publishResults_Inr_iff split: if_splits)
  qed
qed

lemma later_keeps:
  assumes "later s s'"
  shows "(finalized (polls s i) \<longrightarrow> finalized (polls s' i))
    \<and> (resultsPublished (polls s i) \<longrightarrow>
          resultsPublished (polls s' i) \<and> clearResults (polls s' i) = clearResults (polls s i))
    \<and> (hasVoted s i a \<longrightarrow> hasVoted s' i a)"
  using assms
proof (induction rule: later.induct)
  case (later_refl s)
  show ?case by simp
next
  case (later_call s s' e c s'')
  from exec_keeps [OF later_call.hyps(2), of i a] later_call.IH show ?case
    by auto
qed

text \<open>
  C10. A call of \<open>vote\<close> that passes the guards, with a choice that decrypts to \<open>c\<close> at or
  beyond the number \<open>n\<close> of options: the call returns without error, every equality
  indicator decrypts to false and no tally's cleartext changes, yet the caller is
  recorded in \<^verbatim>\<open>_hasVoted\<close> and \<^verbatim>\<open>VoteCast\<close> is emitted.
\<close>

theorem vote_out_of_range:
  assumes "reachable t s"
    and "pollId < pollCount s"
    and "ucast (startTime (polls s pollId)) \<le> block_timestamp e"
    and "block_timestamp e < ucast (endTime (polls s pollId))"
    and "\<not> hasVoted s pollId (msg_sender e)"
    and "FHE_fromExternal e (msg_sender e) encryptedChoice inputProof = Some choice"
    and "length (options (polls s pollId)) \<le> unat (decrypt choice)"
  shows "\<exists>s'. vote e pollId encryptedChoice inputProof s = (Inr (), s')
       \<and> (\<forall>i < length (options (polls s pollId)).
             \<not> decrypt_bool (FHE_eq choice (FHE_asEuint32 (of_nat i)))
             \<and> decrypt (tallies (polls s' pollId) ! i) = decrypt (tallies (polls s pollId) ! i))
       \<and> hasVoted s' pollId (msg_sender e)
       \<and> emitted s' = emitted s @ [VoteCast pollId (msg_sender e)]"
proof -
  let ?old = "tallies (polls s pollId)"
  let ?new = "fst (vote_loop choice (FHE_asEuint32 1) (FHE_asEuint32 0) 0 ?old (aclAllowed s))"
  obtain s' where ok: "vote e pollId encryptedChoice inputProof s = (Inr (), s')"
    and s': "tallies (polls s' pollId) = ?new" "hasVoted s' pollId (msg_sender e)"
      "emitted s' = emitted s @ [VoteCast pollId (msg_sender e)]"
    using assms(2-6) by (simp add: vote_Inr_iff)
  from assms(1) have n: "length ?old = length (options (polls s pollId))"
    by (simp add: reachable_option_count)
  have "\<not> decrypt_bool (FHE_eq choice (FHE_asEuint32 (of_nat i)))
      \<and> decrypt (?new ! i) = decrypt (?old ! i)"
    if "i < length (options (polls s pollId))" for i
  proof -
    from that assms(7) have "i < unat (decrypt choice)"
      by simp
    moreover have "unat (decrypt choice) < 2 ^ LENGTH(32)"
      by (rule unsigned_less)
    ultimately have "decrypt choice \<noteq> of_nat i"
      by (auto simp: of_nat_eq_iff_unat)
    moreover from that n have "i < length ?old"
      by simp
    ultimately show ?thesis
      by (simp add: vote_loop_nth decrypt_increment) (simp add: FHE_defs)
  qed
  with ok s' show ?thesis
    by auto
qed

theorem vote_out_of_range_witness:
  "reachable 1000 created
   \<and> 0 < pollCount created
   \<and> ucast (startTime (polls created 0)) \<le> block_timestamp (hardhat 1005 alice)
   \<and> block_timestamp (hardhat 1005 alice) < ucast (endTime (polls created 0))
   \<and> \<not> hasVoted created 0 alice
   \<and> FHE_fromExternal (hardhat 1005 alice) alice 7 [1] = Some (Ciphertext 7 7)
   \<and> length (options (polls created 0)) \<le> unat (decrypt (Ciphertext 7 7))
   \<and> vote (hardhat 1005 alice) 0 7 [1] created = (Inr (), voted 7)
   \<and> decrypt (tallies (polls (voted 7) 0) ! 0) = decrypt (tallies (polls created 0) ! 0)
   \<and> decrypt (tallies (polls (voted 7) 0) ! 1) = decrypt (tallies (polls created 0) ! 1)
   \<and> hasVoted (voted 7) 0 alice
   \<and> emitted (voted 7) = emitted created @ [VoteCast 0 alice]"
proof -
  have h: "0 < pollCount created"
    "ucast (startTime (polls created 0)) \<le> block_timestamp (hardhat 1005 alice)"
    "block_timestamp (hardhat 1005 alice) < ucast (endTime (polls created 0))"
    "\<not> hasVoted created 0 (msg_sender (hardhat 1005 alice))"
    "FHE_fromExternal (hardhat 1005 alice) (msg_sender (hardhat 1005 alice)) 7 [1]
       = Some (Ciphertext 7 7)"
    "length (options (polls created 0)) \<le> unat (decrypt (Ciphertext 7 7))"
    by (simp_all add: scenario_defs)
  have n: "length (options (polls created 0)) = 2"
    by (simp add: scenario_defs)
  from vote_out_of_range [OF reachable_created h]
  have same: "decrypt (tallies (polls (voted 7) 0) ! i) = decrypt (tallies (polls created 0) ! i)"
    if "i < 2" for i
    using that by (auto simp: voted_out_of_range_ok n)
  from vote_out_of_range [OF reachable_created h]
  have "hasVoted (voted 7) 0 (msg_sender (hardhat 1005 alice))"
    "emitted (voted 7) = emitted created @ [VoteCast 0 (msg_sender (hardhat 1005 alice))]"
    by (auto simp: voted_out_of_range_ok)
  with same [of 0] same [of 1] h reachable_created voted_out_of_range_ok show ?thesis
    by (simp add: hardhat_def)
qed

lemma exec_pollCount:
  assumes "exec e c s = (r, s')"
  shows "pollCount s \<le> pollCount s'"
proof (cases r)
  case (Inl err)
  with assms have "s' = s"
    by (auto dest: exec_Inl)
  then show ?thesis by simp
next
  case (Inr u)
  with assms have "exec e c s = (Inr u, s')"
    by simp
  then show ?thesis
  proof (cases rule: exec_Inr_cases)
    case create
    then have "pollCount s \<noteq> - 1" "pollCount s' = pollCount s + 1"
      by (simp_all add: createPoll_Inr_iff)
    then show ?thesis
      using word_succ_le [of "pollCount s" "pollCount s + 1"] by simp
  qed (auto simp: vote_Inr_iff finalizePoll_Inr_iff publishResults_Inr_iff)
qed

lemma later_pollCount: "later s s' \<Longrightarrow> pollCount s \<le> pollCount s'"
  by (induction rule: later.induct) (auto dest: exec_pollCount)

lemma vote_again:
  assumes "vote e pollId enc pr s = (Inr (), s')" and "later s' s''"
    and "msg_sender e' = msg_sender e"
  shows "\<exists>err. vote e' pollId enc' pr' s'' = (Inl err, s'')"
    and "ucast (startTime (polls s'' pollId)) \<le> block_timestamp e'
           \<and> block_timestamp e' < ucast (endTime (polls s'' pollId)) \<Longrightarrow>
         fst (vote e' pollId enc' pr' s'') = Inl (AddressAlreadyVoted pollId (msg_sender e'))"
proof -
  from assms(1) have "hasVoted s' pollId (msg_sender e)" "pollId < pollCount s'"
    by (auto simp: vote_Inr_iff)
  with assms(2,3) have v: "hasVoted s'' pollId (msg_sender e')" "pollId < pollCount s''"
    using later_keeps [of s' s'' pollId "msg_sender e"] later_pollCount [of s' s''] by auto
  then have "\<exists>err. fst (vote e' pollId enc' pr' s'') = Inl err"
    by (simp add: vote_fst)
  then show "\<exists>err. vote e' pollId enc' pr' s'' = (Inl err, s'')"
    by (metis prod.collapse vote_snd_Inl)
  show "fst (vote e' pollId enc' pr' s'') = Inl (AddressAlreadyVoted pollId (msg_sender e'))"
    if "ucast (startTime (polls s'' pollId)) \<le> block_timestamp e'
           \<and> block_timestamp e' < ucast (endTime (polls s'' pollId))"
    using v that by (auto simp: vote_fst)
qed

text \<open>
  C3, the claim as stated fails: on the local network run, a call of \<open>vote\<close> on an existing
  poll, inside its window, by an address that has not voted, but with an input proof
  that \<^verbatim>\<open>FHE.fromExternal\<close> rejects, passes the three guards and reverts.
\<close>

theorem vote_guards_counterexample:
  "0 < pollCount created
   \<and> \<not> (block_timestamp (hardhat 1005 alice) < ucast (startTime (polls created 0))
        \<or> ucast (endTime (polls created 0)) \<le> block_timestamp (hardhat 1005 alice))
   \<and> \<not> hasVoted created 0 (msg_sender (hardhat 1005 alice))
   \<and> vote (hardhat 1005 alice) 0 0 [] created = (Inl InputProofRejected, created)"
  by (simp add: vote_def getPoll_def scenario_defs)

text \<open>
  C3, amended. \<open>vote\<close> rejects with \<open>PollNotFound\<close> exactly when the poll id is at or
  beyond the counter; otherwise with \<open>PollNotActive\<close> exactly when the block time is before
  \<open>startTime\<close> or at or after \<open>endTime\<close>; otherwise with \<open>AddressAlreadyVoted\<close> exactly when
  the caller is in \<^verbatim>\<open>_hasVoted\<close>; a call that passes the three guards returns exactly when
  \<^verbatim>\<open>FHE.fromExternal\<close> accepts the submitted handle and proof. After a vote that returned,
  whatever calls follow, every vote of the same address on the same poll reverts (with
  \<open>AddressAlreadyVoted\<close> while the poll is in its window), whatever the choice.
\<close>

theorem vote_guards:
  "(fst (vote e pollId encryptedChoice inputProof s) = Inl (PollNotFound pollId)
      \<longleftrightarrow> pollCount s \<le> pollId)
   \<and> (pollId < pollCount s \<longrightarrow>
        (fst (vote e pollId encryptedChoice inputProof s) = Inl (PollNotActive pollId)
           \<longleftrightarrow> block_timestamp e < ucast (startTime (polls s pollId))
                \<or> ucast (endTime (polls s pollId)) \<le> block_timestamp e))
   \<and> (pollId < pollCount s
        \<and> ucast (startTime (polls s pollId)) \<le> block_timestamp e
        \<and> block_timestamp e < ucast (endTime (polls s pollId)) \<longrightarrow>
        (fst (vote e pollId encryptedChoice inputProof s)
             = Inl (AddressAlreadyVoted pollId (msg_sender e))
           \<longleftrightarrow> hasVoted s pollId (msg_sender e)))
   \<and> (pollId < pollCount s
        \<and> ucast (startTime (polls s pollId)) \<le> block_timestamp e
        \<and> block_timestamp e < ucast (endTime (polls s pollId))
        \<and> \<not> hasVoted s pollId (msg_sender e) \<longrightarrow>
        (fst (vote e pollId encryptedChoice inputProof s) = Inr ()
           \<longleftrightarrow> FHE_fromExternal e (msg_sender e) encryptedChoice inputProof \<noteq> None))
   \<and> (\<forall>e' encryptedChoice' inputProof' s' s''.
        vote e pollId encryptedChoice inputProof s = (Inr (), s') \<and> later s' s''
        \<and> msg_sender e' = msg_sender e \<longrightarrow>
        (\<exists>err. vote e' pollId encryptedChoice' inputProof' s'' = (Inl err, s''))
        \<and> (ucast (startTime (polls s'' pollId)) \<le> block_timestamp e'
             \<and> block_timestamp e' < ucast (endTime (polls s'' pollId)) \<longrightarrow>
            fst (vote e' pollId encryptedChoice' inputProof' s'')
              = Inl (AddressAlreadyVoted pollId (msg_sender e'))))"
  using vote_again [of e pollId encryptedChoice inputProof s]
  by (auto simp: vote_fst)

theorem vote_guards_witness:
  "0 < pollCount created
   \<and> ucast (startTime (polls created 0)) \<le> block_timestamp (hardhat 1005 alice)
   \<and> block_timestamp (hardhat 1005 alice) < ucast (endTime (polls created 0))
   \<and> \<not> hasVoted created 0 (msg_sender (hardhat 1005 alice))
   \<and> FHE_fromExternal (hardhat 1005 alice) alice 0 [1] \<noteq> None
   \<and> vote (hardhat 1005 alice) 0 0 [1] created = (Inr (), voted 0)
   \<and> later (voted 0) closed
   \<and> msg_sender (hardhat 1010 alice) = msg_sender (hardhat 1005 alice)
   \<and> ucast (startTime (polls (voted 0) 0)) \<le> block_timestamp (hardhat 1010 alice)
   \<and> block_timestamp (hardhat 1010 alice) < ucast (endTime (polls (voted 0) 0))
   \<and> fst (vote (hardhat 1010 alice) 0 1 [1] (voted 0)) = Inl (AddressAlreadyVoted 0 alice)
   \<and> (\<exists>err. vote (hardhat 1070 alice) 0 1 [1] closed = (Inl err, closed))"
proof -
  note c3 = vote_guards [of "hardhat 1005 alice" 0 0 "[1]" created]
  have h: "0 < pollCount created"
    "ucast (startTime (polls created 0)) \<le> block_timestamp (hardhat 1005 alice)"
    "block_timestamp (hardhat 1005 alice) < ucast (endTime (polls created 0))"
    "\<not> hasVoted created 0 (msg_sender (hardhat 1005 alice))"
    "FHE_fromExternal (hardhat 1005 alice) (msg_sender (hardhat 1005 alice)) 0 [1] \<noteq> None"
    by (simp_all add: scenario_defs)
  have w: "ucast (startTime (polls (voted 0) 0)) \<le> block_timestamp (hardhat 1010 alice)"
    "block_timestamp (hardhat 1010 alice) < ucast (endTime (polls (voted 0) 0))"
    "msg_sender (hardhat 1010 alice) = msg_sender (hardhat 1005 alice)"
    "msg_sender (hardhat 1070 alice) = msg_sender (hardhat 1005 alice)"
    by (simp_all add: scenario_defs)
  have l: "later (voted 0) (voted 0)" "later (voted 0) closed"
    using later_call [OF later_refl, of "hardhat 1066 bob" "FinalizePoll 0" "voted 0" closed]
    by (simp_all add: later_refl closed_ok)
  from c3 h have "fst (vote (hardhat 1005 alice) 0 0 [1] created) = Inr ()"
    by blast
  from c3 voted_ok l(1) w(1-3)
  have a: "fst (vote (hardhat 1010 alice) 0 1 [1] (voted 0))
      = Inl (AddressAlreadyVoted 0 (msg_sender (hardhat 1010 alice)))"
    by blast
  from c3 voted_ok l(2) w(4)
  have b: "\<exists>err. vote (hardhat 1070 alice) 0 1 [1] closed = (Inl err, closed)"
    by blast
  from h w l a b voted_ok show ?thesis
    by (simp add: hardhat_def)
qed

section \<open>Claims about createPoll\<close>

lemma createPoll_fst:
  "fst (createPoll e name' os st en s) =
     (if name' = [] then Inl EmptyName
      else if length os < 2 \<or> 4 < length os then Inl InvalidOptionCount
      else if en \<le> st \<or> ucast en \<le> block_timestamp e then Inl InvalidSchedule
      else if pollCount s = - 1 then Inl (Panic 0x11)
      else Inr (pollCount s))"
  by (simp add: createPoll_def Let_def split_def)

lemma createPoll_stored:
  assumes "reachable t s" and "createPoll e name' os st en s = (Inr pid, s')"
  shows "pid = pollCount s"
    and "unat (pollCount s') = unat (pollCount s) + 1"
    and "polls s' pid = \<lparr>name = name', options = os, startTime = st, endTime = en,
           finalized = False, resultsPublished = False, clearResults = [],
           tallies = replicate (length os) (FHE_asEuint32 0)\<rparr>"
    and "other \<noteq> pid \<Longrightarrow> polls s' other = polls s other"
proof -
  from reachable_inv [OF assms(1)] have "polls s (pollCount s) = zeroPoll"
    by (simp add: state_inv_def)
  with assms(2) show "pid = pollCount s"
    and "unat (pollCount s') = unat (pollCount s) + 1"
    and "polls s' pid = \<lparr>name = name', options = os, startTime = st, endTime = en,
           finalized = False, resultsPublished = False, clearResults = [],
           tallies = replicate (length os) (FHE_asEuint32 0)\<rparr>"
    and "other \<noteq> pid \<Longrightarrow> polls s' other = polls s other"
    by (simp_all add: createPoll_Inr_iff zeroPoll_def unat_succ)
qed

text \<open>
  C2, the claim as stated fails: a call of \<open>createPoll\<close> with an empty name and no option
  has fewer than two options, and is rejected with \<open>EmptyName\<close>, not with
  \<open>InvalidOptionCount\<close>: the name is checked first.
\<close>

theorem createPoll_guards_counterexample:
  "\<not> (fst (createPoll (hardhat 1000 alice) [] [] 1005 1065 deployed) = Inl InvalidOptionCount
        \<longleftrightarrow> length ([] :: string list) < 2 \<or> 4 < length ([] :: string list))"
  by (simp add: createPoll_fst)

text \<open>
  C2, amended. \<open>createPoll\<close> rejects with \<open>EmptyName\<close> exactly when the name is empty;
  otherwise with \<open>InvalidOptionCount\<close> exactly when the number of options is below 2 or
  above 4; otherwise with \<open>InvalidSchedule\<close> exactly when \<open>endTime \<le> startTime\<close> or
  \<open>endTime\<close> is not after the block time. A call that returns, on a reachable storage,
  returns the old \<open>totalPolls\<close>, raises \<open>totalPolls\<close> by one (without wrapping), and leaves
  at the new id a poll with the name, options and times as given, one tally per option
  that is \<^verbatim>\<open>FHE.asEuint32(0)\<close> and decrypts to 0, both flags false and no clear results;
  the other polls are untouched.
\<close>

theorem createPoll_guards:
  "(fst (createPoll e name' options' startTime' endTime' s) = Inl EmptyName
      \<longleftrightarrow> name' = [])
   \<and> (fst (createPoll e name' options' startTime' endTime' s) = Inl InvalidOptionCount
      \<longleftrightarrow> name' \<noteq> [] \<and> (length options' < 2 \<or> 4 < length options'))
   \<and> (fst (createPoll e name' options' startTime' endTime' s) = Inl InvalidSchedule
      \<longleftrightarrow> name' \<noteq> [] \<and> 2 \<le> length options' \<and> length options' \<le> 4
          \<and> (endTime' \<le> startTime' \<or> ucast endTime' \<le> block_timestamp e))
   \<and> (reachable t s \<and> createPoll e name' options' startTime' endTime' s = (Inr pollId, s')
        \<longrightarrow>
        pollId = totalPolls s
        \<and> unat (totalPolls s') = unat (totalPolls s) + 1
        \<and> polls s' pollId =
            \<lparr>name = name', options = options', startTime = startTime', endTime = endTime',
             finalized = False, resultsPublished = False, clearResults = [],
             tallies = replicate (length options') (FHE_asEuint32 0)\<rparr>
        \<and> length (tallies (polls s' pollId)) = length options'
        \<and> (\<forall>h \<in> set (tallies (polls s' pollId)). decrypt h = 0)
        \<and> (\<forall>other. other \<noteq> pollId \<longrightarrow> polls s' other = polls s other))"
proof -
  have "pollId = totalPolls s
        \<and> unat (totalPolls s') = unat (totalPolls s) + 1
        \<and> polls s' pollId =
            \<lparr>name = name', options = options', startTime = startTime', endTime = endTime',
             finalized = False, resultsPublished = False, clearResults = [],
             tallies = replicate (length options') (FHE_asEuint32 0)\<rparr>
        \<and> length (tallies (polls s' pollId)) = length options'
        \<and> (\<forall>h \<in> set (tallies (polls s' pollId)). decrypt h = 0)
        \<and> (\<forall>other. other \<noteq> pollId \<longrightarrow> polls s' other = polls s other)"
    if "reachable t s" "createPoll e name' options' startTime' endTime' s = (Inr pollId, s')"
    using createPoll_stored [OF that] by (simp add: totalPolls_def FHE_asEuint32_def)
  then show ?thesis
    by (auto simp: createPoll_fst)
qed

theorem createPoll_guards_witness:
  "reachable 0 deployed
   \<and> createPoll (hardhat 1000 alice) ''Weekly poll'' [''Alice'', ''Bob''] 1005 1065 deployed
       = (Inr 0, created)
   \<and> totalPolls deployed = 0 \<and> unat (totalPolls created) = 1
   \<and> polls created 0 = weeklyPoll
   \<and> fst (createPoll (hardhat 1000 alice) ''Weekly poll'' [''Alice''] 1005 1065 deployed)
       = Inl InvalidOptionCount
   \<and> fst (createPoll (hardhat 1000 alice) ''Weekly poll'' [''Alice'', ''Bob''] 1005 1000 deployed)
       = Inl InvalidSchedule"
proof -
  note c2 = createPoll_guards [of "hardhat 1000 alice" "''Weekly poll''" _ _ _ deployed]
  from c2 [of "[''Alice'', ''Bob'']" 1005 1065 0 0 created] reachable_deployed [of 0] created_ok
  have "totalPolls deployed = 0" "unat (totalPolls created) = unat (totalPolls deployed) + 1"
    by simp_all
  moreover from c2 [of "[''Alice'']" 1005 1065]
  have "fst (createPoll (hardhat 1000 alice) ''Weekly poll'' [''Alice''] 1005 1065 deployed)
       = Inl InvalidOptionCount"
    by simp
  moreover from c2 [of "[''Alice'', ''Bob'']" 1005 1000]
  have "fst (createPoll (hardhat 1000 alice) ''Weekly poll'' [''Alice'', ''Bob''] 1005 1000
      deployed) = Inl InvalidSchedule"
    by simp
  ultimately show ?thesis
    using reachable_deployed [of 0] created_ok by (simp add: created_def)
qed

text \<open>
  C6, the claim as stated fails: \<open>createPoll\<close> accepts a call whose first option is the
  empty string, and stores it.
\<close>

theorem createPoll_options_counterexample:
  "fst (createPoll (hardhat 1000 alice) ''Weekly poll'' ['''', ''Bob''] 1005 1065 deployed) = Inr 0
   \<and> options (polls (snd (createPoll (hardhat 1000 alice) ''Weekly poll'' ['''', ''Bob'']
        1005 1065 deployed)) 0) = ['''', ''Bob'']"
proof -
  obtain s' where s': "createPoll (hardhat 1000 alice) ''Weekly poll'' ['''', ''Bob''] 1005 1065
      deployed = (Inr 0, s')"
    by (simp add: createPoll_Inr_iff scenario_defs)
  from createPoll_stored(3) [OF reachable_deployed s'] s' show ?thesis
    by simp
qed

text \<open>
  C6, amended. \<open>createPoll\<close> looks at the options only through their number: two calls
  that differ only in the option strings, not in how many there are, are both accepted
  or both rejected with the same error. An accepted call (on a reachable storage) has
  between 2 and 4 options and stores them as given, empty strings included.
\<close>

theorem createPoll_options:
  "(length options' = length options'' \<longrightarrow>
      fst (createPoll e name' options' startTime' endTime' s)
        = fst (createPoll e name' options'' startTime' endTime' s))
   \<and> (reachable t s \<and> createPoll e name' options' startTime' endTime' s = (Inr pollId, s')
        \<longrightarrow> options (polls s' pollId) = options'
            \<and> 2 \<le> length options' \<and> length options' \<le> 4)"
proof -
  have "options (polls s' pollId) = options' \<and> 2 \<le> length options' \<and> length options' \<le> 4"
    if "reachable t s" "createPoll e name' options' startTime' endTime' s = (Inr pollId, s')"
    using createPoll_stored(3) [OF that] that(2) by (simp add: createPoll_Inr_iff)
  then show ?thesis
    by (auto simp: createPoll_fst)
qed

theorem createPoll_options_witness:
  "length ['''', ''Bob''] = length [''Alice'', ''Bob'']
   \<and> fst (createPoll (hardhat 1000 alice) ''Weekly poll'' ['''', ''Bob''] 1005 1065 deployed)
       = Inr 0
   \<and> reachable 0 deployed
   \<and> createPoll (hardhat 1000 alice) ''Weekly poll'' [''Alice'', ''Bob''] 1005 1065 deployed
       = (Inr 0, created)
   \<and> options (polls created 0) = [''Alice'', ''Bob'']"
proof -
  from createPoll_options [of "['''', ''Bob'']" "[''Alice'', ''Bob'']" "hardhat 1000 alice"
      "''Weekly poll''" 1005 1065 deployed]
  have "fst (createPoll (hardhat 1000 alice) ''Weekly poll'' ['''', ''Bob''] 1005 1065 deployed)
       = Inr 0"
    by (simp add: created_ok)
  moreover from createPoll_options [of "[''Alice'', ''Bob'']" "[''Alice'', ''Bob'']"
      "hardhat 1000 alice" "''Weekly poll''" 1005 1065 deployed 0 0 created]
    reachable_deployed [of 0] created_ok
  have "options (polls created 0) = [''Alice'', ''Bob'']"
    by simp
  ultimately show ?thesis
    using reachable_deployed [of 0] created_ok by simp
qed

section \<open>Claims about finalizePoll\<close>

lemma finalizePoll_fst:
  "fst (finalizePoll e pollId s) =
     (if pollCount s \<le> pollId then Inl (PollNotFound pollId)
      else if block_timestamp e < ucast (endTime (polls s pollId))
        then Inl (PollStillActive pollId)
      else if finalized (polls s pollId) then Inl (PollAlreadyFinalized pollId)
      else Inr ())"
  by (simp add: finalizePoll_def getPoll_def Let_def)

lemma reachable_slot:
  assumes "reachable t s"
  shows "pollCount s \<le> pollId \<Longrightarrow> polls s pollId = zeroPoll"
    and "finalized (polls s pollId) \<Longrightarrow> ucast (endTime (polls s pollId)) \<le> t"
    and "resultsPublished (polls s pollId) \<Longrightarrow> finalized (polls s pollId)"
  using reachable_inv [OF assms] by (simp_all add: state_inv_def poll_inv_def)

text \<open>
  C4. On a reachable storage, in a call whose block time is not before that of the calls
  so far: \<open>finalizePoll\<close> rejects with \<open>PollNotFound\<close> exactly when the id is at or beyond
  \<open>totalPolls\<close>, with \<open>PollStillActive\<close> exactly when the block time is before \<open>endTime\<close>,
  with \<open>PollAlreadyFinalized\<close> exactly when the poll is finalized. A call that returns has
  marked every tally handle publicly decryptable and set \<open>finalized\<close>; the poll's other
  fields, its tally handles (hence their cleartexts), the other polls, \<^verbatim>\<open>_hasVoted\<close> and
  the counter are as before.
\<close>

theorem finalizePoll_guards:
  assumes "reachable t s" and "t \<le> block_timestamp e"
  shows "(fst (finalizePoll e pollId s) = Inl (PollNotFound pollId)
            \<longleftrightarrow> totalPolls s \<le> pollId)
       \<and> (fst (finalizePoll e pollId s) = Inl (PollStillActive pollId)
            \<longleftrightarrow> block_timestamp e < ucast (endTime (polls s pollId)))
       \<and> (fst (finalizePoll e pollId s) = Inl (PollAlreadyFinalized pollId)
            \<longleftrightarrow> finalized (polls s pollId))
       \<and> (finalizePoll e pollId s = (Inr (), s') \<longrightarrow>
            set (tallies (polls s pollId)) \<subseteq> aclPublic s'
            \<and> finalized (polls s' pollId)
            \<and> polls s' pollId = (polls s pollId)\<lparr>finalized := True\<rparr>
            \<and> map decrypt (tallies (polls s' pollId)) = map decrypt (tallies (polls s pollId))
            \<and> (\<forall>other. other \<noteq> pollId \<longrightarrow> polls s' other = polls s other)
            \<and> hasVoted s' = hasVoted s
            \<and> totalPolls s' = totalPolls s)"
proof -
  have absent: "\<not> block_timestamp e < ucast (endTime (polls s pollId))"
      "\<not> finalized (polls s pollId)"
    if "pollCount s \<le> pollId"
    using reachable_slot(1) [OF assms(1) that] by (simp_all add: zeroPoll_def)
  have fin: "\<not> block_timestamp e < ucast (endTime (polls s pollId))"
    if "finalized (polls s pollId)"
    using reachable_slot(2) [OF assms(1) that] assms(2) by auto
  show ?thesis
    using absent fin
    by (auto simp: finalizePoll_fst totalPolls_def finalizePoll_Inr_iff)
qed

theorem finalizePoll_guards_witness:
  "reachable 1005 (voted 0)
   \<and> 1005 \<le> block_timestamp (hardhat 1066 bob)
   \<and> finalizePoll (hardhat 1066 bob) 0 (voted 0) = (Inr (), closed)
   \<and> \<not> finalized (polls (voted 0) 0)
   \<and> \<not> block_timestamp (hardhat 1066 bob) < ucast (endTime (polls (voted 0) 0))
   \<and> finalized (polls closed 0)
   \<and> set (tallies (polls (voted 0) 0)) \<subseteq> aclPublic closed
   \<and> tallies (polls closed 0) = tallies (polls (voted 0) 0)
   \<and> hasVoted closed = hasVoted (voted 0)"
proof -
  have t: "1005 \<le> block_timestamp (hardhat 1066 bob)"
    by (simp add: hardhat_def)
  note c4 = finalizePoll_guards [OF reachable_voted t, of 0 closed]
  from c4 closed_ok have "\<not> finalized (polls (voted 0) 0)"
    "\<not> block_timestamp (hardhat 1066 bob) < ucast (endTime (polls (voted 0) 0))"
    by auto
  moreover from c4 closed_ok have "finalized (polls closed 0)"
    "set (tallies (polls (voted 0) 0)) \<subseteq> aclPublic closed"
    "polls closed 0 = (polls (voted 0) 0)\<lparr>finalized := True\<rparr>"
    "hasVoted closed = hasVoted (voted 0)"
    by blast+
  ultimately show ?thesis
    using reachable_voted t closed_ok by simp
qed

section \<open>Claims about publishResults\<close>

lemma publishResults_fst:
  "fst (publishResults e pollId res pr s) =
     (if pollCount s \<le> pollId then Inl (PollNotFound pollId)
      else if \<not> finalized (polls s pollId) then Inl (PollNotFinalized pollId)
      else if resultsPublished (polls s pollId) then Inl (PollAlreadyPublished pollId)
      else if length res \<noteq> length (tallies (polls s pollId)) then Inl InvalidOptionCount
      else if shouldVerify e pr
              \<and> \<not> FHE_checkSignatures e (tallies (polls s pollId)) (abi_encodePacked res) pr
        then Inl SignaturesRejected
      else Inr ())"
  by (simp add: publishResults_def getPoll_def Let_def handles_eq)

lemma copyUint64Array_eq: "copyUint64Array stored = stored"
  by (simp add: copyUint64Array_def copy_loop_eq)

lemma getPublicResults_eq:
  "pollId < pollCount s \<Longrightarrow> getPublicResults s pollId = Inr (clearResults (polls s pollId))"
  by (simp add: getPublicResults_def getPoll_def copyUint64Array_eq)

text \<open>
  C5, the claim as stated fails: on the local network run, before the poll is finalized,
  a call of \<open>publishResults\<close> with no result for a poll of two options is rejected with
  \<open>PollNotFinalized\<close>, not with \<open>InvalidOptionCount\<close>: the guards are checked in order.
\<close>

theorem publishResults_guards_counterexample:
  "0 < totalPolls (voted 0)
   \<and> length ([] :: uint64 list) \<noteq> length (options (polls (voted 0) 0))
   \<and> fst (publishResults (hardhat 1066 bob) 0 [] [] (voted 0)) = Inl (PollNotFinalized 0)
   \<and> fst (publishResults (hardhat 1066 bob) 0 [] [] (voted 0)) \<noteq> Inl InvalidOptionCount"
  by (simp add: publishResults_fst totalPolls_def scenario_defs)

text \<open>
  C5, amended. On a reachable storage \<open>publishResults\<close> rejects with \<open>PollNotFound\<close> when
  the id is at or beyond \<open>totalPolls\<close>; otherwise with \<open>PollNotFinalized\<close> when the poll is
  not finalized; otherwise with \<open>PollAlreadyPublished\<close> when its results are published;
  otherwise with \<open>InvalidOptionCount\<close> when the number of submitted results differs from
  the number of options. \<open>shouldVerify\<close> is false exactly on chain 31337 with an empty
  proof; a call that passes the four guards then returns without consulting
  \<^verbatim>\<open>FHE.checkSignatures\<close>, and otherwise returns exactly when \<^verbatim>\<open>FHE.checkSignatures\<close> accepts
  the poll's tally handles, the packed results and the proof. A call that returns has
  stored the submitted results and set \<open>resultsPublished\<close>.
\<close>

theorem publishResults_guards:
  assumes "reachable t s"
  shows "(fst (publishResults e pollId clearResults' decryptionProof s)
              = Inl (PollNotFound pollId) \<longleftrightarrow> totalPolls s \<le> pollId)
       \<and> (pollId < totalPolls s \<longrightarrow>
            (fst (publishResults e pollId clearResults' decryptionProof s)
               = Inl (PollNotFinalized pollId) \<longleftrightarrow> \<not> finalized (polls s pollId)))
       \<and> (pollId < totalPolls s \<and> finalized (polls s pollId) \<longrightarrow>
            (fst (publishResults e pollId clearResults' decryptionProof s)
               = Inl (PollAlreadyPublished pollId) \<longleftrightarrow> resultsPublished (polls s pollId)))
       \<and> (pollId < totalPolls s \<and> finalized (polls s pollId)
            \<and> \<not> resultsPublished (polls s pollId) \<longrightarrow>
            (fst (publishResults e pollId clearResults' decryptionProof s)
               = Inl InvalidOptionCount
             \<longleftrightarrow> length clearResults' \<noteq> length (options (polls s pollId))))
       \<and> (shouldVerify e decryptionProof
            \<longleftrightarrow> \<not> (block_chainid e = 31337 \<and> decryptionProof = []))
       \<and> (pollId < totalPolls s \<and> finalized (polls s pollId)
            \<and> \<not> resultsPublished (polls s pollId)
            \<and> length clearResults' = length (options (polls s pollId)) \<longrightarrow>
            (block_chainid e = 31337 \<and> decryptionProof = [] \<longrightarrow>
               fst (publishResults e pollId clearResults' decryptionProof s) = Inr ())
            \<and> (\<not> (block_chainid e = 31337 \<and> decryptionProof = []) \<longrightarrow>
               (fst (publishResults e pollId clearResults' decryptionProof s) = Inr ()
                \<longleftrightarrow> FHE_checkSignatures e (tallies (polls s pollId))
                      (abi_encodePacked clearResults') decryptionProof)))
       \<and> (publishResults e pollId clearResults' decryptionProof s = (Inr (), s') \<longrightarrow>
            clearResults (polls s' pollId) = clearResults'
            \<and> resultsPublished (polls s' pollId)
            \<and> polls s' pollId =
                (polls s pollId)\<lparr>clearResults := clearResults', resultsPublished := True\<rparr>
            \<and> getPublicResults s' pollId = Inr clearResults')"
proof -
  have n: "length (tallies (polls s pollId)) = length (options (polls s pollId))"
    using assms by (simp add: reachable_option_count)
  have stored: "clearResults (polls s' pollId) = clearResults'
      \<and> resultsPublished (polls s' pollId)
      \<and> polls s' pollId =
          (polls s pollId)\<lparr>clearResults := clearResults', resultsPublished := True\<rparr>
      \<and> getPublicResults s' pollId = Inr clearResults'"
    if "publishResults e pollId clearResults' decryptionProof s = (Inr (), s')"
    using that by (simp add: publishResults_Inr_iff getPublicResults_eq)
  show ?thesis
    using stored
    by (auto simp: publishResults_fst totalPolls_def n shouldVerify_def)
qed

theorem publishResults_guards_witness:
  "reachable 1066 closed
   \<and> 0 < totalPolls closed
   \<and> finalized (polls closed 0)
   \<and> \<not> resultsPublished (polls closed 0)
   \<and> length [1, 0 :: uint64] = length (options (polls closed 0))
   \<and> block_chainid (hardhat 1066 bob) = 31337
   \<and> \<not> shouldVerify (hardhat 1066 bob) []
   \<and> shouldVerify (hardhat 1066 bob) [2]
   \<and> publishResults (hardhat 1066 bob) 0 [1, 0] [] closed = (Inr (), published)
   \<and> clearResults (polls published 0) = [1, 0]
   \<and> resultsPublished (polls published 0)
   \<and> getPublicResults published 0 = Inr [1, 0]
   \<and> \<not> FHE_checkSignatures (hardhat 1066 bob) (tallies (polls closed 0))
         (abi_encodePacked [1, 0]) [2]
   \<and> fst (publishResults (hardhat 1066 bob) 0 [1, 0] [2] closed) \<noteq> Inr ()"
proof -
  have h: "0 < totalPolls closed" "finalized (polls closed 0)"
    "\<not> resultsPublished (polls closed 0)"
    "length [1, 0 :: uint64] = length (options (polls closed 0))"
    "block_chainid (hardhat 1066 bob) = 31337"
    by (simp_all add: totalPolls_def scenario_defs)
  have rej: "\<not> FHE_checkSignatures (hardhat 1066 bob) (tallies (polls closed 0))
         (abi_encodePacked [1, 0]) [2]"
    by (simp add: hardhat_def mock_checkSignatures_def)
  note c5 = publishResults_guards [OF reachable_closed, of "hardhat 1066 bob" 0 "[1, 0]"]
  from c5 [of "[]" published] have "\<not> shouldVerify (hardhat 1066 bob) []"
    using h(5) by simp
  moreover from c5 [of "[2]" published] have "shouldVerify (hardhat 1066 bob) [2]"
    by simp
  moreover from c5 [of "[]" published] published_ok
  have "clearResults (polls published 0) = [1, 0]" "resultsPublished (polls published 0)"
    "getPublicResults published 0 = Inr [1, 0]"
    by blast+
  moreover from c5 [of "[2]" published] h rej
  have "fst (publishResults (hardhat 1066 bob) 0 [1, 0] [2] closed) \<noteq> Inr ()"
    by simp
  ultimately show ?thesis
    using reachable_closed h rej published_ok by simp
qed

section \<open>Claims about every call\<close>

text \<open>
  C7. On a reachable storage every created poll has as many tallies as options;
  \<open>resultsPublished\<close> implies \<open>finalized\<close>; while \<open>resultsPublished\<close> is false
  \<open>clearResults\<close> is empty and \<open>getPublicResults\<close> returns the empty array; once it is true
  \<open>clearResults\<close> has one entry per option, and after whatever calls follow it is still
  the same array and still published.
\<close>

theorem poll_invariants:
  assumes "reachable t s" and "pollId < totalPolls s"
  shows "length (options (polls s pollId)) = length (tallies (polls s pollId))
       \<and> (resultsPublished (polls s pollId) \<longrightarrow> finalized (polls s pollId))
       \<and> (\<not> resultsPublished (polls s pollId) \<longrightarrow>
            clearResults (polls s pollId) = [] \<and> getPublicResults s pollId = Inr [])
       \<and> (resultsPublished (polls s pollId) \<longrightarrow>
            length (clearResults (polls s pollId)) = length (options (polls s pollId))
            \<and> (\<forall>s'. later s s' \<longrightarrow>
                  resultsPublished (polls s' pollId)
                  \<and> clearResults (polls s' pollId) = clearResults (polls s pollId)
                  \<and> getPublicResults s' pollId = Inr (clearResults (polls s pollId))))"
proof -
  from reachable_inv [OF assms(1)] have inv: "poll_inv t (polls s pollId)"
    by (simp add: state_inv_def)
  from assms(2) have ex: "pollId < pollCount s"
    by (simp add: totalPolls_def)
  have fixed: "resultsPublished (polls s' pollId)
      \<and> clearResults (polls s' pollId) = clearResults (polls s pollId)
      \<and> getPublicResults s' pollId = Inr (clearResults (polls s pollId))"
    if "resultsPublished (polls s pollId)" "later s s'" for s'
  proof -
    from later_keeps [OF that(2), of pollId] that(1)
    have k: "resultsPublished (polls s' pollId)"
      "clearResults (polls s' pollId) = clearResults (polls s pollId)"
      by simp_all
    from later_pollCount [OF that(2)] ex have "pollId < pollCount s'"
      by simp
    with k show ?thesis
      by (simp add: getPublicResults_eq)
  qed
  from inv ex fixed show ?thesis
    by (auto simp: poll_inv_def getPublicResults_eq split: if_splits)
qed

theorem poll_invariants_witness:
  "reachable 1066 published
   \<and> 0 < totalPolls published
   \<and> resultsPublished (polls published 0)
   \<and> later published published
   \<and> length (options (polls published 0)) = length (tallies (polls published 0))
   \<and> finalized (polls published 0)
   \<and> length (clearResults (polls published 0)) = length (options (polls published 0))
   \<and> getPublicResults published 0 = Inr (clearResults (polls published 0))
   \<and> reachable 1066 closed
   \<and> 0 < totalPolls closed
   \<and> \<not> resultsPublished (polls closed 0)
   \<and> getPublicResults closed 0 = Inr []"
proof -
  have h: "0 < totalPolls published" "resultsPublished (polls published 0)"
    "0 < totalPolls closed" "\<not> resultsPublished (polls closed 0)"
    by (simp_all add: totalPolls_def scenario_defs)
  note p = poll_invariants [OF reachable_published h(1)]
  note c = poll_invariants [OF reachable_closed h(3)]
  from p h(2) have "length (options (polls published 0)) = length (tallies (polls published 0))"
    "finalized (polls published 0)"
    "length (clearResults (polls published 0)) = length (options (polls published 0))"
    by blast+
  moreover from p h(2) later_refl [of published]
  have "getPublicResults published 0 = Inr (clearResults (polls published 0))"
    by blast
  moreover from c h(4) have "getPublicResults closed 0 = Inr []"
    by blast
  ultimately show ?thesis
    using h reachable_published reachable_closed later_refl [of published] by simp
qed

text \<open>
  C8. Whatever the call and its outcome, a poll that was finalized is finalized after
  it, a poll whose results were published still has them published, and an address
  recorded in \<^verbatim>\<open>_hasVoted\<close> is still recorded; the same holds after any sequence of calls.
  A call after which a poll is finalized that was not before was made at a block time at
  or after the poll's \<open>endTime\<close>.
\<close>

theorem flags_monotone:
  "(exec e c s = (r, s') \<longrightarrow>
      (finalized (polls s pollId) \<longrightarrow> finalized (polls s' pollId))
      \<and> (resultsPublished (polls s pollId) \<longrightarrow> resultsPublished (polls s' pollId))
      \<and> (hasVoted s pollId voter \<longrightarrow> hasVoted s' pollId voter)
      \<and> (\<not> finalized (polls s pollId) \<and> finalized (polls s' pollId) \<longrightarrow>
            ucast (endTime (polls s pollId)) \<le> block_timestamp e
            \<and> endTime (polls s' pollId) = endTime (polls s pollId)))
   \<and> (later s s'' \<longrightarrow>
      (finalized (polls s pollId) \<longrightarrow> finalized (polls s'' pollId))
      \<and> (resultsPublished (polls s pollId) \<longrightarrow> resultsPublished (polls s'' pollId))
      \<and> (hasVoted s pollId voter \<longrightarrow> hasVoted s'' pollId voter))"
  using exec_keeps [of e c s r s' pollId voter] later_keeps [of s s'' pollId voter]
  by blast

theorem flags_monotone_witness:
  "exec (hardhat 1066 bob) (FinalizePoll 0) (voted 0) = (Inr (), closed)
   \<and> \<not> finalized (polls (voted 0) 0)
   \<and> finalized (polls closed 0)
   \<and> ucast (endTime (polls (voted 0) 0)) \<le> block_timestamp (hardhat 1066 bob)
   \<and> hasVoted (voted 0) 0 alice
   \<and> hasVoted closed 0 alice
   \<and> exec (hardhat 1066 bob) (PublishResults 0 [1, 0] []) closed = (Inr (), published)
   \<and> finalized (polls published 0)
   \<and> later (voted 0) published
   \<and> hasVoted published 0 alice"
proof -
  have x: "exec (hardhat 1066 bob) (FinalizePoll 0) (voted 0) = (Inr (), closed)"
    "exec (hardhat 1066 bob) (PublishResults 0 [1, 0] []) closed = (Inr (), published)"
    by (simp_all add: closed_ok published_ok)
  have l: "later (voted 0) published"
    using later_call [OF later_call [OF later_refl x(1)] x(2)] .
  have h: "\<not> finalized (polls (voted 0) 0)" "finalized (polls closed 0)"
    "hasVoted (voted 0) 0 alice"
    by (simp_all add: scenario_defs)
  from flags_monotone [of "hardhat 1066 bob" "FinalizePoll 0" "voted 0" "Inr ()" closed 0 alice]
    x(1) h
  have "ucast (endTime (polls (voted 0) 0)) \<le> block_timestamp (hardhat 1066 bob)"
    "hasVoted closed 0 alice"
    by blast+
  moreover
  from flags_monotone [of "hardhat 1066 bob" "PublishResults 0 [1, 0] []" closed "Inr ()"
      published 0 alice] x(2) h(2)
  have "finalized (polls published 0)"
    by blast
  moreover
  from flags_monotone [of _ _ "voted 0" _ _ 0 alice published] l h(3)
  have "hasVoted published 0 alice"
    by blast
  ultimately show ?thesis
    using x l h by simp
qed

text \<open>
  C9. Each of the four state-changing functions leaves the whole storage, the
  access-control list and the event log as they were when it reverts, whatever the
  error. In particular a \<open>vote\<close> whose input proof \<^verbatim>\<open>FHE.fromExternal\<close> rejects, and a
  \<open>publishResults\<close> whose proof is to be verified and is rejected by
  \<^verbatim>\<open>FHE.checkSignatures\<close>, revert and change nothing.
\<close>

theorem all_or_nothing:
  "(createPoll e name' options' startTime' endTime' s = (Inl err, s') \<longrightarrow> s' = s)
   \<and> (vote e pollId encryptedChoice inputProof s = (Inl err, s') \<longrightarrow> s' = s)
   \<and> (finalizePoll e pollId s = (Inl err, s') \<longrightarrow> s' = s)
   \<and> (publishResults e pollId clearResults' decryptionProof s = (Inl err, s') \<longrightarrow> s' = s)
   \<and> (FHE_fromExternal e (msg_sender e) encryptedChoice inputProof = None \<longrightarrow>
        (\<exists>err'. vote e pollId encryptedChoice inputProof s = (Inl err', s)))
   \<and> (shouldVerify e decryptionProof
        \<and> \<not> FHE_checkSignatures e (tallies (polls s pollId))
              (abi_encodePacked clearResults') decryptionProof \<longrightarrow>
        (\<exists>err'. publishResults e pollId clearResults' decryptionProof s = (Inl err', s)))"
proof -
  have v: "\<exists>err'. vote e pollId encryptedChoice inputProof s = (Inl err', s)"
    if "FHE_fromExternal e (msg_sender e) encryptedChoice inputProof = None"
  proof -
    from that have "\<exists>err'. fst (vote e pollId encryptedChoice inputProof s) = Inl err'"
      by (simp add: vote_fst)
    then show ?thesis
      by (metis prod.collapse vote_Inl)
  qed
  have p: "\<exists>err'. publishResults e pollId clearResults' decryptionProof s = (Inl err', s)"
    if "shouldVerify e decryptionProof
        \<and> \<not> FHE_checkSignatures e (tallies (polls s pollId))
              (abi_encodePacked clearResults') decryptionProof"
  proof -
    from that
    have "\<exists>err'. fst (publishResults e pollId clearResults' decryptionProof s) = Inl err'"
      by (simp add: publishResults_fst)
    then show ?thesis
      by (metis prod.collapse publishResults_Inl)
  qed
  from v p show ?thesis
    by (auto dest: createPoll_Inl vote_Inl finalizePoll_Inl publishResults_Inl)
qed

theorem all_or_nothing_witness:
  "FHE_fromExternal (hardhat 1005 alice) (msg_sender (hardhat 1005 alice)) 0 [] = None
   \<and> vote (hardhat 1005 alice) 0 0 [] created = (Inl InputProofRejected, created)
   \<and> shouldVerify (hardhat 1066 bob) [2]
   \<and> \<not> FHE_checkSignatures (hardhat 1066 bob) (tallies (polls closed 0))
         (abi_encodePacked [1, 0]) [2]
   \<and> publishResults (hardhat 1066 bob) 0 [1, 0] [2] closed = (Inl SignaturesRejected, closed)
   \<and> finalizePoll (hardhat 1010 bob) 0 (voted 0) = (Inl (PollStillActive 0), voted 0)
   \<and> createPoll (hardhat 1000 alice) [] [] 1005 1065 deployed = (Inl EmptyName, deployed)"
proof -
  have h: "FHE_fromExternal (hardhat 1005 alice) (msg_sender (hardhat 1005 alice)) 0 [] = None"
    "shouldVerify (hardhat 1066 bob) [2]"
    "\<not> FHE_checkSignatures (hardhat 1066 bob) (tallies (polls closed 0))
         (abi_encodePacked [1, 0]) [2]"
    by (simp_all add: hardhat_def mock_fromExternal_def mock_checkSignatures_def
          shouldVerify_def)
  have f: "fst (vote (hardhat 1005 alice) 0 0 [] created) = Inl InputProofRejected"
    "fst (publishResults (hardhat 1066 bob) 0 [1, 0] [2] closed) = Inl SignaturesRejected"
    "fst (finalizePoll (hardhat 1010 bob) 0 (voted 0)) = Inl (PollStillActive 0)"
    "fst (createPoll (hardhat 1000 alice) [] [] 1005 1065 deployed) = Inl EmptyName"
    by (simp_all add: vote_fst publishResults_fst finalizePoll_fst createPoll_fst
          scenario_defs shouldVerify_def)
  have "vote (hardhat 1005 alice) 0 0 [] created = (Inl InputProofRejected, created)"
    using all_or_nothing [of "hardhat 1005 alice" _ _ _ _ created InputProofRejected
        "snd (vote (hardhat 1005 alice) 0 0 [] created)" 0 0 "[]"] f(1)
    by (metis prod.collapse)
  moreover
  have "publishResults (hardhat 1066 bob) 0 [1, 0] [2] closed = (Inl SignaturesRejected, closed)"
    using all_or_nothing [of "hardhat 1066 bob" _ _ _ _ closed SignaturesRejected
        "snd (publishResults (hardhat 1066 bob) 0 [1, 0] [2] closed)" 0 _ _ "[1, 0]" "[2]"] f(2)
    by (metis prod.collapse)
  moreover
  have "finalizePoll (hardhat 1010 bob) 0 (voted 0) = (Inl (PollStillActive 0), voted 0)"
    using all_or_nothing [of "hardhat 1010 bob" _ _ _ _ "voted 0" "PollStillActive 0"
        "snd (finalizePoll (hardhat 1010 bob) 0 (voted 0))" 0] f(3)
    by (metis prod.collapse)
  moreover
  have "createPoll (hardhat 1000 alice) [] [] 1005 1065 deployed = (Inl EmptyName, deployed)"
    using all_or_nothing [of "hardhat 1000 alice" "[]" "[]" 1005 1065 deployed EmptyName
        "snd (createPoll (hardhat 1000 alice) [] [] 1005 1065 deployed)"] f(4)
    by (metis prod.collapse)
  ultimately show ?thesis
    using h by simp
qed

end
